theory Spec2Isabelle
  imports Complex_Main "HOL-Library.Log_Nat" "HOL-Library.Sublist" "HOL-Library.AList"
begin

section \<open>The esports scraper (data\_scraper.py) as a functional model\<close>

text \<open>
  The program fetches HTML tables with pandas, renames their columns by position, cleans
  the money, percentage and count columns, drops duplicate rows and appends the result to
  MySQL tables. The model below follows \<^verbatim>\<open>data_scraper.py\<close> function by function.
  What the program takes from pandas, numpy and the MySQL server is written out as HOL
  functions next to the place where the program calls it; each such function names the
  library call it stands for.
\<close>

subsection \<open>Values\<close>

text \<open>
  A cell of a table that \<^verbatim>\<open>pd.read_html\<close> returns for a text column is a Python string, or
  the float NaN where the HTML cell is empty. Columns that pandas reads as numbers are not
  modelled: in the pages the scraper is written for, every column that is cleaned carries
  text (a currency sign, a percent sign, a unit word).
\<close>

datatype cell = Text string | NA

text \<open>
  A value of a cleaned column: a string, a 64-bit integer (numpy int64, held as an
  \<open>int\<close> that stays in range), a finite float64 (held as the rational it denotes; the
  sign of zero is dropped), the two infinities, NaN, and Python's None.
\<close>

datatype pyval = VStr string | VInt int | VFlt rat | PosInf | NegInf | NaN | VNone

text \<open>The exceptions that can leave a function of the program.\<close>

datatype error =
    ValueError          \<comment> \<open>float() or int() of unparsable text; length mismatch on renaming\<close>
  | OverflowError       \<comment> \<open>a Python int that does not fit numpy's int64\<close>
  | IntCastingNaNError  \<comment> \<open>astype(int) of a column that holds NaN or an infinity\<close>
  | InvalidIndexError   \<comment> \<open>pd.concat has to realign a frame with duplicate labels\<close>
  | DatabaseError       \<comment> \<open>mysql.connector: no connection, or unknown database\<close>

fun mapE :: "('a \<Rightarrow> error + 'b) \<Rightarrow> 'a list \<Rightarrow> error + 'b list" where
  "mapE f [] = Inr []"
| "mapE f (x # xs) =
     (case f x of
        Inl e \<Rightarrow> Inl e
      | Inr y \<Rightarrow> (case mapE f xs of Inl e \<Rightarrow> Inl e | Inr ys \<Rightarrow> Inr (y # ys)))"

subsection \<open>float64 and int64\<close>

definition pow2 :: "int \<Rightarrow> rat" where
  "pow2 k = (if 0 \<le> k then 2 ^ nat k else 1 / 2 ^ nat (- k))"

definition pow10 :: "int \<Rightarrow> rat" where
  "pow10 k = (if 0 \<le> k then 10 ^ nat k else 1 / 10 ^ nat (- k))"

text \<open>\<open>floor_log2 x\<close> is the \<open>k\<close> with \<open>2^k \<le> x < 2^(k+1)\<close>, for \<open>x > 0\<close>.\<close>

definition floor_log2 :: "rat \<Rightarrow> int" where
  "floor_log2 x =
     (let (p, q) = quotient_of x; k = bitlen p - bitlen q
      in if pow2 k \<le> x then k else k - 1)"

definition round_half_even :: "rat \<Rightarrow> int" where
  "round_half_even x =
     (let f = \<lfloor>x\<rfloor>; d = x - of_int f
      in if d < 1 / 2 then f else if 1 / 2 < d then f + 1 else if even f then f else f + 1)"

text \<open>
  Rounding a rational to the nearest float64, ties to even: 53 significant bits, the
  smallest spacing \<open>2^-1074\<close>, and overflow to an infinity from \<open>2^1024\<close> on.
\<close>

definition round_float64 :: "rat \<Rightarrow> pyval" where
  "round_float64 x =
     (if x = 0 then VFlt 0
      else let e = max (floor_log2 \<bar>x\<bar> - 52) (- 1074);
               y = of_int (round_half_even (x / pow2 e)) * pow2 e
           in if pow2 1024 \<le> \<bar>y\<bar> then (if 0 < x then PosInf else NegInf) else VFlt y)"

definition int64_min :: int where "int64_min = - (2 ^ 63)"
definition int64_max :: int where "int64_max = 2 ^ 63 - 1"

definition in_int64 :: "int \<Rightarrow> bool" where
  "in_int64 i \<longleftrightarrow> int64_min \<le> i \<and> i \<le> int64_max"

definition trunc :: "rat \<Rightarrow> int" where
  "trunc r = (if 0 \<le> r then \<lfloor>r\<rfloor> else \<lceil>r\<rceil>)"

text \<open>
  \<^verbatim>\<open>Series.astype(int)\<close> on a float64 column: pandas raises when a value is not finite,
  then numpy truncates towards zero. The integer type is int64, numpy's default integer
  (on Windows from numpy 2 on). A finite float outside int64 converts to the smallest
  int64 (what the x86-64 conversion instruction gives).
\<close>

fun astype_int :: "pyval \<Rightarrow> error + pyval" where
  "astype_int (VFlt r) = Inr (VInt (if in_int64 (trunc r) then trunc r else int64_min))"
| "astype_int (VInt i) = Inr (VInt i)"
| "astype_int PosInf = Inl IntCastingNaNError"
| "astype_int NegInf = Inl IntCastingNaNError"
| "astype_int NaN = Inl IntCastingNaNError"
| "astype_int (VStr s) = Inl ValueError"
| "astype_int VNone = Inl ValueError"

subsection \<open>Strings and numeric literals\<close>

definition is_digit :: "char \<Rightarrow> bool" where
  "is_digit c \<longleftrightarrow> c \<in> set ''0123456789''"

definition is_space :: "char \<Rightarrow> bool" where
  "is_space c \<longleftrightarrow> c \<in> {CHR '' '', CHR 0x09, CHR 0x0A, CHR 0x0B, CHR 0x0C, CHR 0x0D}"

definition digit_val :: "char \<Rightarrow> nat" where
  "digit_val c = of_char c - 48"

definition nat_of_digits :: "string \<Rightarrow> nat" where
  "nat_of_digits ds = foldl (\<lambda>a c. 10 * a + digit_val c) 0 ds"

definition strip :: "string \<Rightarrow> string" where
  "strip s = rev (dropWhile is_space (rev (dropWhile is_space s)))"

definition to_lower :: "char \<Rightarrow> char" where
  "to_lower c = (if of_char c \<in> {65 .. 90 :: nat} then char_of (of_char c + 32 :: nat) else c)"

text \<open>
  The numeric literals that Python's \<^verbatim>\<open>float()\<close> and pandas' \<^verbatim>\<open>to_numeric\<close> read:
  surrounding ASCII white space, a sign, then \<^verbatim>\<open>inf\<close>, \<^verbatim>\<open>infinity\<close> or \<^verbatim>\<open>nan\<close> in any
  case, or decimal digits with an optional fraction and an optional exponent. A literal
  of digits only is an integer literal. A string is a list of code points below 256.
\<close>

datatype numlit = IntLit int | DecLit rat | InfLit bool | NaNLit

definition split_sign :: "string \<Rightarrow> bool \<times> string" where
  "split_sign s =
     (case s of
        [] \<Rightarrow> (False, [])
      | c # r \<Rightarrow> if c = CHR ''-'' then (True, r) else if c = CHR ''+'' then (False, r)
                 else (False, s))"

definition parse_exponent :: "string \<Rightarrow> int option" where
  "parse_exponent s =
     (let (neg, ds) = split_sign s
      in if ds \<noteq> [] \<and> list_all is_digit ds
         then Some (if neg then - int (nat_of_digits ds) else int (nat_of_digits ds))
         else None)"

definition parse_unsigned :: "string \<Rightarrow> numlit option" where
  "parse_unsigned u =
     (let ip = takeWhile is_digit u; r1 = dropWhile is_digit u
      in if r1 = [] then (if ip = [] then None else Some (IntLit (int (nat_of_digits ip))))
         else
           let dot = (hd r1 = CHR ''.'');
               fp = (if dot then takeWhile is_digit (tl r1) else []);
               r2 = (if dot then dropWhile is_digit (tl r1) else r1);
               m = of_nat (nat_of_digits (ip @ fp)) / 10 ^ length fp
           in if ip = [] \<and> fp = [] then None
              else if r2 = [] then Some (DecLit m)
              else if hd r2 = CHR ''e'' \<or> hd r2 = CHR ''E''
                then map_option (\<lambda>k. DecLit (m * pow10 k)) (parse_exponent (tl r2))
              else None)"

fun negate :: "numlit \<Rightarrow> numlit" where
  "negate (IntLit i) = IntLit (- i)"
| "negate (DecLit r) = DecLit (- r)"
| "negate (InfLit b) = InfLit (\<not> b)"
| "negate NaNLit = NaNLit"

definition parse_number :: "string \<Rightarrow> numlit option" where
  "parse_number s =
     (let (neg, u) = split_sign (strip s); l = map to_lower u;
          r = (if l = ''inf'' \<or> l = ''infinity'' then Some (InfLit True)
               else if l = ''nan'' then Some NaNLit
               else parse_unsigned u)
      in if neg then map_option negate r else r)"

fun float_of_lit :: "numlit \<Rightarrow> pyval" where
  "float_of_lit (IntLit i) = round_float64 (of_int i)"
| "float_of_lit (DecLit r) = round_float64 r"
| "float_of_lit (InfLit b) = (if b then PosInf else NegInf)"
| "float_of_lit NaNLit = NaN"

text \<open>
  Python's \<^verbatim>\<open>float(s)\<close> and \<^verbatim>\<open>int(s)\<close> first cut the white space at both ends, which
  for code points below 256 is the six ASCII blanks, U+001C to U+001F, U+0085 and U+00A0,
  and then take out every underscore that stands between two digits; an underscore in
  any other place is an error. \<open>drop_underscores\<close> carries the character before.
\<close>

definition is_py_space :: "char \<Rightarrow> bool" where
  "is_py_space c \<longleftrightarrow>
     is_space c \<or> c \<in> {CHR 0x1C, CHR 0x1D, CHR 0x1E, CHR 0x1F, CHR 0x85, CHR 0xA0}"

definition py_strip :: "string \<Rightarrow> string" where
  "py_strip s = rev (dropWhile is_py_space (rev (dropWhile is_py_space s)))"

fun drop_underscores :: "char \<Rightarrow> string \<Rightarrow> string option" where
  "drop_underscores prev [] = (if prev = CHR ''_'' then None else Some [])"
| "drop_underscores prev (c # cs) =
     (if c = CHR ''_'' then (if is_digit prev then drop_underscores c cs else None)
      else if prev = CHR ''_'' \<and> \<not> is_digit c then None
      else map_option ((#) c) (drop_underscores c cs))"

definition py_literal :: "string \<Rightarrow> numlit option" where
  "py_literal s =
     (case drop_underscores (CHR 0x00) (py_strip s) of
        None \<Rightarrow> None
      | Some t \<Rightarrow> parse_number t)"

text \<open>Python's \<^verbatim>\<open>float(s)\<close>: ValueError when the text is not a literal.\<close>

definition py_float :: "string \<Rightarrow> error + pyval" where
  "py_float s = (case py_literal s of None \<Rightarrow> Inl ValueError | Some l \<Rightarrow> Inr (float_of_lit l))"

text \<open>
  \<^verbatim>\<open>astype(int)\<close> on a column of strings: numpy calls Python's \<^verbatim>\<open>int(s)\<close> on each string,
  which takes integer literals only, and stores the result as int64.
\<close>

definition py_int :: "string \<Rightarrow> error + pyval" where
  "py_int s =
     (case py_literal s of
        Some (IntLit i) \<Rightarrow> if in_int64 i then Inr (VInt i) else Inl OverflowError
      | _ \<Rightarrow> Inl ValueError)"

subsection \<open>The cleaning rules\<close>

text \<open>
  \<^verbatim>\<open>Series.astype(str)\<close> on a column of strings and NaN: a string stays, NaN becomes the
  text \<^verbatim>\<open>nan\<close>. This is what pandas does up to the versions 2.x with the object dtype;
  versions that keep a missing value missing are not modelled.
\<close>

fun astype_str :: "cell \<Rightarrow> string" where
  "astype_str (Text s) = s"
| "astype_str NA = ''nan''"

text \<open>
  \<^verbatim>\<open>Series.replace(r'[\$,]', '', regex=True)\<close>: the dollar signs and commas of a string
  are deleted; a cell that is not a string is left as it is.
\<close>

fun strip_currency :: "cell \<Rightarrow> cell" where
  "strip_currency (Text s) = Text (filter (\<lambda>c. c \<noteq> CHR ''$'' \<and> c \<noteq> CHR '','') s)"
| "strip_currency NA = NA"

text \<open>\<^verbatim>\<open>Series.astype(float)\<close> on a column of strings and NaN.\<close>

fun astype_float :: "cell \<Rightarrow> error + pyval" where
  "astype_float (Text s) = py_float s"
| "astype_float NA = Inr NaN"

text \<open>
  The currency rule as the countries columns \<^verbatim>\<open>total_earnings\<close> and \<^verbatim>\<open>game_earnings\<close>
  have it (lines 125 and 128): \<^verbatim>\<open>.replace(r'[\$,]', '', regex=True).astype(float)\<close>.
\<close>

definition currency_float :: "cell list \<Rightarrow> error + pyval list" where
  "currency_float col = mapE astype_float (map strip_currency col)"

text \<open>
  The currency rule of players, tournaments and teams (lines 161, 204 and 232), which
  ends in \<^verbatim>\<open>.astype(float).astype(int)\<close>. Each \<^verbatim>\<open>astype\<close> runs over the whole column
  before the next one starts.
\<close>

definition currency_int :: "cell list \<Rightarrow> error + pyval list" where
  "currency_int col =
     (case currency_float col of Inl e \<Rightarrow> Inl e | Inr xs \<Rightarrow> mapE astype_int xs)"

text \<open>
  The percentage rule (lines 129 and 163):
  \<^verbatim>\<open>.astype(str).str.replace('%', '').astype(float)\<close>.
\<close>

definition percent_float :: "cell list \<Rightarrow> error + pyval list" where
  "percent_float col =
     mapE (\<lambda>c. py_float (filter (\<lambda>x. x \<noteq> CHR ''%'') (astype_str c))) col"

text \<open>
  The count rule of countries (line 126):
  \<^verbatim>\<open>.astype(str).str.replace(r'[^\d]', '', regex=True).astype(int)\<close>.
\<close>

definition digits_int :: "cell list \<Rightarrow> error + pyval list" where
  "digits_int col = mapE (\<lambda>c. py_int (filter is_digit (astype_str c))) col"

text \<open>\<^verbatim>\<open>str.replace(pat, '')\<close> for a literal pattern: every occurrence is cut out, left to right.\<close>

function remove_sub :: "string \<Rightarrow> string \<Rightarrow> string" where
  "remove_sub pat [] = []"
| "remove_sub pat (c # cs) =
     (if pat \<noteq> [] \<and> prefix pat (c # cs) then remove_sub pat (drop (length pat) (c # cs))
      else c # remove_sub pat cs)"
  by pat_completeness auto
termination
  by (relation "measure (\<lambda>(pat, s). length s)") auto

text \<open>
  The unit-suffixed count rule of teams (lines 233 and 234):
  \<^verbatim>\<open>.astype(str).str.replace(" Tournaments", "").str.replace(",", "")\<close>, then
  \<^verbatim>\<open>pd.to_numeric(..., errors='coerce').fillna(0).astype(int)\<close>.
\<close>

definition played_text :: "cell \<Rightarrow> string" where
  "played_text c = remove_sub '','' (remove_sub '' Tournaments'' (astype_str c))"

text \<open>
  \<^verbatim>\<open>pd.to_numeric(errors='coerce')\<close> decides the type of the whole column: int64 when
  every string is an integer literal in range, uint64 when every string is an integer
  literal below \<open>2^64\<close>, and float64 otherwise, where an unparsable string becomes NaN
  and every integer is rounded to a float. The float of a literal is taken as the
  nearest float64; the parser of pandas agrees with that for every integer up to
  \<open>2^53\<close> and for \<open>2^53 + 1\<close>, and may differ by a unit in the last place, or in what
  it makes of a literal beyond the float64 range, for other text, depending on its
  version.
\<close>

datatype numcol = Int64Col "int list" | UInt64Col "int list" | Float64Col "pyval list"

fun lit_int :: "numlit option \<Rightarrow> int option" where
  "lit_int (Some (IntLit i)) = Some i"
| "lit_int _ = None"

fun float_coerce :: "numlit option \<Rightarrow> pyval" where
  "float_coerce None = NaN"
| "float_coerce (Some l) = float_of_lit l"

definition in_uint64 :: "int \<Rightarrow> bool" where
  "in_uint64 i \<longleftrightarrow> 0 \<le> i \<and> i < 2 ^ 64"

definition to_numeric_coerce :: "string list \<Rightarrow> numcol" where
  "to_numeric_coerce ss =
     (let ls = map parse_number ss
      in case those (map lit_int ls) of
           None \<Rightarrow> Float64Col (map float_coerce ls)
         | Some ints \<Rightarrow>
             if list_all in_int64 ints then Int64Col ints
             else if list_all in_uint64 ints then UInt64Col ints
             else Float64Col (map float_coerce ls))"

fun fillna0 :: "numcol \<Rightarrow> numcol" where
  "fillna0 (Float64Col xs) = Float64Col (map (\<lambda>x. if x = NaN then VFlt 0 else x) xs)"
| "fillna0 c = c"

fun astype_int_col :: "numcol \<Rightarrow> error + pyval list" where
  "astype_int_col (Int64Col is) = Inr (map VInt is)"
| "astype_int_col (UInt64Col is) =
     Inr (map (\<lambda>i. VInt (if in_int64 i then i else i - 2 ^ 64)) is)"
| "astype_int_col (Float64Col xs) = mapE astype_int xs"

definition count_int :: "cell list \<Rightarrow> error + pyval list" where
  "count_int col = astype_int_col (fillna0 (to_numeric_coerce (map played_text col)))"

text \<open>
  The shape of a currency string, \<^verbatim>\<open>"$" digits ("," digits)*\<close>: the groups of digits are
  given as a list, \<open>money_text\<close> writes them out and \<open>money_value\<close> is the number that
  the digits denote once the sign and the separators are gone.
\<close>

fun join_commas :: "string list \<Rightarrow> string" where
  "join_commas [] = []"
| "join_commas [g] = g"
| "join_commas (g # h # gs) = g @ CHR '','' # join_commas (h # gs)"

definition money_text :: "string list \<Rightarrow> string" where
  "money_text gs = CHR ''$'' # join_commas gs"

definition digit_groups :: "string list \<Rightarrow> bool" where
  "digit_groups gs \<longleftrightarrow> gs \<noteq> [] \<and> list_all (\<lambda>g. g \<noteq> [] \<and> list_all is_digit g) gs"

definition money_value :: "string list \<Rightarrow> nat" where
  "money_value gs = nat_of_digits (concat gs)"

text \<open>Every integer up to \<open>2^53\<close> is a float64; \<open>2^53 + 1\<close> is the first that is not.\<close>

definition max_exact :: nat where
  "max_exact = 2 ^ 53"

subsection \<open>Data frames\<close>

text \<open>
  A DataFrame: the column labels and the rows, every row as long as the label list.
  Labels are strings; \<^verbatim>\<open>pd.read_html\<close> makes the labels of one table distinct.
\<close>

record 'a frame =
  columns :: "string list"
  rows :: "'a list list"

definition wf_frame :: "'a frame \<Rightarrow> bool" where
  "wf_frame f \<longleftrightarrow> list_all (\<lambda>r. length r = length (columns f)) (rows f)"

text \<open>
  The column at a position. The program reads a column only after it has set as many
  names as the frame has labels, so in a frame that satisfies \<open>wf_frame\<close> every row
  has a cell at the position.
\<close>

definition column :: "nat \<Rightarrow> 'a frame \<Rightarrow> 'a list" where
  "column i f = map (\<lambda>r. r ! i) (rows f)"

text \<open>\<^verbatim>\<open>df.empty\<close>: no rows or no columns.\<close>

definition df_empty :: "'a frame \<Rightarrow> bool" where
  "df_empty f \<longleftrightarrow> rows f = [] \<or> columns f = []"

text \<open>
  \<^verbatim>\<open>DataFrame.drop_duplicates()\<close>: a row stays when no equal row came before it;
  \<open>seen\<close> holds the rows met so far. pandas counts NaN equal to NaN here, as the
  equality of \<open>pyval\<close> does.
\<close>

fun drop_dups_from :: "'a list \<Rightarrow> 'a list \<Rightarrow> 'a list" where
  "drop_dups_from seen [] = []"
| "drop_dups_from seen (x # xs) =
     (if x \<in> set seen then drop_dups_from seen xs else x # drop_dups_from (x # seen) xs)"

definition drop_duplicates :: "'a list \<Rightarrow> 'a list" where
  "drop_duplicates xs = drop_dups_from [] xs"

text \<open>
  \<^verbatim>\<open>pd.concat(frames, ignore_index=True)\<close>. Frames with the same labels are stacked.
  Otherwise pandas aligns by label: the result has the union of the labels in order of
  first appearance, and a row gets NaN under a label its frame does not have; it raises
  when a frame to realign has a label twice.
\<close>

definition reindex_row :: "string list \<Rightarrow> string list \<Rightarrow> cell list \<Rightarrow> cell list" where
  "reindex_row old new r =
     map (\<lambda>c. case map_of (zip old r) c of Some v \<Rightarrow> v | None \<Rightarrow> NA) new"

definition pd_concat :: "cell frame list \<Rightarrow> error + cell frame" where
  "pd_concat fs =
     (case fs of
        [] \<Rightarrow> Inl ValueError
      | f # _ \<Rightarrow>
          if list_all (\<lambda>g. columns g = columns f) fs
          then Inr \<lparr>columns = columns f, rows = concat (map rows fs)\<rparr>
          else if list_all (\<lambda>g. distinct (columns g)) fs
          then let u = drop_duplicates (concat (map columns fs))
               in Inr \<lparr>columns = u,
                        rows = concat (map (\<lambda>g. map (reindex_row (columns g) u) (rows g)) fs)\<rparr>
          else Inl InvalidIndexError)"

text \<open>Rows from cleaned columns of \<open>n\<close> values each.\<close>

definition rows_of_columns :: "nat \<Rightarrow> 'a list list \<Rightarrow> 'a list list" where
  "rows_of_columns n cols = foldr (\<lambda>col rs. map2 (#) col rs) cols (replicate n [])"

text \<open>\<^verbatim>\<open>df.drop(columns=[l])\<close>: every column labelled \<open>l\<close> goes.\<close>

definition drop_label :: "string \<Rightarrow> 'a frame \<Rightarrow> 'a frame" where
  "drop_label l f =
     \<lparr>columns = filter (\<lambda>c. c \<noteq> l) (columns f),
      rows = map (\<lambda>r. map snd (filter (\<lambda>(c, v). c \<noteq> l) (zip (columns f) r))) (rows f)\<rparr>"

text \<open>A raw cell kept as it is in a cleaned frame.\<close>

fun raw_value :: "cell \<Rightarrow> pyval" where
  "raw_value (Text s) = VStr s"
| "raw_value NA = NaN"

subsection \<open>The world: the web, the MySQL server, the terminal\<close>

text \<open>
  What \<^verbatim>\<open>pd.read_html(url)\<close> does for each address: it raises (no network, no table in
  the page, a parse error) or returns the list of the tables of the page.
\<close>

datatype page = Raises | Tables "cell frame list"

type_synonym web = "string \<Rightarrow> page"

text \<open>The lines the program prints, one constructor for each \<^verbatim>\<open>print\<close> of the source.\<close>

datatype msg =
    Starting                              \<comment> \<open>line 246\<close>
  | ScrapingCountries                     \<comment> \<open>line 112\<close>
  | ScrapingPlayers                       \<comment> \<open>line 140\<close>
  | ScrapingTournaments                   \<comment> \<open>line 174\<close>
  | ScrapingTeams                         \<comment> \<open>line 216\<close>
  | FetchError string                     \<comment> \<open>lines 80 and 194, with the address\<close>
  | NoTableAt string                      \<comment> \<open>line 192\<close>
  | AvailableColumns string "string list" \<comment> \<open>lines 146 and 225\<close>
  | NoDataFor string                      \<comment> \<open>line 91, with the table\<close>
  | Inserted nat string                   \<comment> \<open>line 104: row count and table\<close>
  | InsertError string                    \<comment> \<open>line 106\<close>
  | NoCountryData                         \<comment> \<open>line 137\<close>
  | FailedPlayers                         \<comment> \<open>line 171\<close>
  | NoTournamentData                      \<comment> \<open>line 213\<close>
  | SavedCsvNote                          \<comment> \<open>line 241\<close>
  | FailedTeams                           \<comment> \<open>line 242\<close>
  | AllDone                               \<comment> \<open>line 252\<close>

datatype sqltype = SqlInt | SqlBigInt | SqlFloat | SqlVarchar nat

text \<open>
  A table of the database \<^verbatim>\<open>esports_data\<close>: the name of its \<^verbatim>\<open>AUTO_INCREMENT PRIMARY KEY\<close>
  column, its other columns with their types, and its rows, each row holding the values
  of the other columns in order (NULL is \<open>VNone\<close>). The key values that the server
  hands out are not modelled.
\<close>

record table =
  key_column :: string
  data_columns :: "(string \<times> sqltype) list"
  table_rows :: "pyval list list"

text \<open>
  The state the program acts on: whether the MySQL server accepts connections, the tables
  of \<^verbatim>\<open>esports_data\<close> (\<open>None\<close> while that database does not exist), the lines printed so
  far, and the number of connections opened so far.
\<close>

record world =
  server_up :: bool
  database :: "(string \<times> table) list option"
  out :: "msg list"
  connections :: nat

text \<open>A procedure returns normally (\<open>Inr\<close>) or raises (\<open>Inl\<close>), and leaves a world.\<close>

type_synonym 'a eff = "world \<Rightarrow> (error + 'a) \<times> world"

definition pr :: "msg \<Rightarrow> world \<Rightarrow> world" where
  "pr m w = w\<lparr>out := out w @ [m]\<rparr>"

fun seqs :: "unit eff list \<Rightarrow> unit eff" where
  "seqs [] w = (Inr (), w)"
| "seqs (p # ps) w = (case p w of (Inl e, w') \<Rightarrow> (Inl e, w') | (Inr u, w') \<Rightarrow> seqs ps w')"

subsection \<open>Database setup (lines 16 to 72)\<close>

definition countries_table :: table where
  "countries_table =
     \<lparr>key_column = ''id'',
      data_columns = [(''name'', SqlVarchar 100), (''total_earnings'', SqlBigInt),
        (''num_players'', SqlInt), (''top_game'', SqlVarchar 100),
        (''game_earnings'', SqlBigInt), (''game_percent'', SqlFloat)],
      table_rows = []\<rparr>"

definition players_table :: table where
  "players_table =
     \<lparr>key_column = ''rank'',
      data_columns = [(''player_id'', SqlVarchar 100), (''player_name'', SqlVarchar 100),
        (''total_earnings'', SqlBigInt), (''main_game'', SqlVarchar 100),
        (''earnings_percent'', SqlFloat)],
      table_rows = []\<rparr>"

definition tournaments_table :: table where
  "tournaments_table =
     \<lparr>key_column = ''id'',
      data_columns = [(''tournament_name'', SqlVarchar 200), (''prize_pool'', SqlBigInt),
        (''game'', SqlVarchar 100), (''participate_team'', SqlInt), (''no_of_player'', SqlInt)],
      table_rows = []\<rparr>"

definition teams_table :: table where
  "teams_table =
     \<lparr>key_column = ''id'',
      data_columns = [(''team_name'', SqlVarchar 255), (''revenue'', SqlInt),
        (''tournaments_played'', SqlInt)],
      table_rows = []\<rparr>"

text \<open>The dictionary \<^verbatim>\<open>tables\<close> of \<^verbatim>\<open>init_database\<close>, in its insertion order.\<close>

definition tables :: "(string \<times> table) list" where
  "tables = [(''countries'', countries_table), (''players'', players_table),
             (''tournaments'', tournaments_table), (''teams'', teams_table)]"

text \<open>\<^verbatim>\<open>CREATE TABLE IF NOT EXISTS\<close>: a table of that name, if there is one, stays as it is.\<close>

definition create_table_if_not_exists ::
  "(string \<times> table) list \<Rightarrow> string \<times> table \<Rightarrow> (string \<times> table) list" where
  "create_table_if_not_exists db nt =
     (case map_of db (fst nt) of Some t \<Rightarrow> db | None \<Rightarrow> db @ [nt])"

text \<open>
  \<^verbatim>\<open>init_database\<close>: \<^verbatim>\<open>get_connection()\<close> raises when the server is down;
  \<^verbatim>\<open>CREATE DATABASE IF NOT EXISTS\<close> and \<^verbatim>\<open>USE\<close> give the tables there are (none for a new
  database); then the loop over \<^verbatim>\<open>tables.items()\<close>. The server is taken to accept the
  four statements, as the MariaDB server of XAMPP that the configuration names does
  (for it \<^verbatim>\<open>rank\<close> is an ordinary column name).
\<close>

definition init_database :: "unit eff" where
  "init_database w =
     (if \<not> server_up w then (Inl DatabaseError, w)
      else
        let db = (case database w of None \<Rightarrow> [] | Some d \<Rightarrow> d)
        in (Inr (), w\<lparr>connections := connections w + 1,
                       database := Some (foldl create_table_if_not_exists db tables)\<rparr>))"

subsection \<open>Fetching (lines 75 to 86)\<close>

definition fetch_html_table :: "web \<Rightarrow> string \<Rightarrow> world \<Rightarrow> cell frame option \<times> world" where
  "fetch_html_table web url w =
     (case web url of
        Raises \<Rightarrow> (None, pr (FetchError url) w)
      | Tables [] \<Rightarrow> (None, w)
      | Tables (t # ts) \<Rightarrow> (Some t, w))"

text \<open>The list comprehension of line 84: one call for each address, in order.\<close>

fun fetch_each :: "web \<Rightarrow> string list \<Rightarrow> world \<Rightarrow> cell frame option list \<times> world" where
  "fetch_each web [] w = ([], w)"
| "fetch_each web (u # us) w =
     (let (r, w1) = fetch_html_table web u w; (rs, w2) = fetch_each web us w1
      in (r # rs, w2))"

fun not_none :: "'a option list \<Rightarrow> 'a list" where
  "not_none [] = []"
| "not_none (None # xs) = not_none xs"
| "not_none (Some x # xs) = x # not_none xs"

definition fetch_multiple_tables ::
  "web \<Rightarrow> string list \<Rightarrow> world \<Rightarrow> (error + cell frame option) \<times> world" where
  "fetch_multiple_tables web urls w =
     (let (fetched, w1) = fetch_each web urls w; frames = not_none fetched
      in if frames = [] then (Inr None, w1)
         else case pd_concat frames of
                Inl e \<Rightarrow> (Inl e, w1)
              | Inr df \<Rightarrow> (Inr (Some df), w1))"

subsection \<open>Insert into MySQL (lines 89 to 109)\<close>

text \<open>\<^verbatim>\<open>df[columns]\<close>: the columns of these labels, a KeyError when one is missing.\<close>

definition select_columns :: "string list \<Rightarrow> 'a frame \<Rightarrow> 'a list list option" where
  "select_columns cols f =
     those (map (\<lambda>r. those (map (map_of (zip (columns f) r)) cols)) (rows f))"

text \<open>\<^verbatim>\<open>.where(pd.notnull(df), None)\<close>: NaN becomes None, which the server stores as NULL.\<close>

fun nan_to_none :: "pyval \<Rightarrow> pyval" where
  "nan_to_none NaN = VNone"
| "nan_to_none v = v"

text \<open>
  Whether the server, in strict mode, takes a value for a column of a type: NULL always,
  a string within the length of a \<^verbatim>\<open>VARCHAR\<close>, an integer within the range of the
  integer type, a finite float within the range of the type (for an integer column after
  rounding to the nearest integer). An infinity is never taken. A string for a numeric
  column is refused; none of the four datasets sends one. The stored value is the value
  sent: the conversion to the column type is not modelled.
\<close>

definition round_nearest :: "rat \<Rightarrow> int" where
  "round_nearest r = (if 0 \<le> r then \<lfloor>r + 1 / 2\<rfloor> else \<lceil>r - 1 / 2\<rceil>)"

definition in_int32 :: "int \<Rightarrow> bool" where
  "in_int32 i \<longleftrightarrow> - (2 ^ 31) \<le> i \<and> i < 2 ^ 31"

definition float32_max :: rat where
  "float32_max = (2 ^ 24 - 1) * 2 ^ 104"

fun fits :: "sqltype \<Rightarrow> pyval \<Rightarrow> bool" where
  "fits ty VNone = True"
| "fits (SqlVarchar n) (VStr s) = (length s \<le> n)"
| "fits (SqlVarchar n) (VInt i) = True"
| "fits (SqlVarchar n) (VFlt r) = True"
| "fits SqlInt (VInt i) = in_int32 i"
| "fits SqlInt (VFlt r) = in_int32 (round_nearest r)"
| "fits SqlBigInt (VInt i) = in_int64 i"
| "fits SqlBigInt (VFlt r) = in_int64 (round_nearest r)"
| "fits SqlFloat (VInt i) = (\<bar>of_int i\<bar> \<le> float32_max)"
| "fits SqlFloat (VFlt r) = (\<bar>r\<bar> \<le> float32_max)"
| "fits ty v = False"

text \<open>
  \<^verbatim>\<open>cursor.executemany(INSERT INTO t (cols) VALUES (...), data)\<close> followed by
  \<^verbatim>\<open>conn.commit()\<close>. The statement fails as a whole (and nothing is committed) when a
  label is not a column of the table, a label comes twice, or a value does not fit its
  column. Columns that are not named get NULL.
\<close>

definition row_fits :: "table \<Rightarrow> string list \<Rightarrow> pyval list \<Rightarrow> bool" where
  "row_fits t cols r =
     list_all (\<lambda>(c, v). case map_of (data_columns t) c of None \<Rightarrow> False | Some ty \<Rightarrow> fits ty v)
       (zip cols r)"

definition place_row :: "table \<Rightarrow> string list \<Rightarrow> pyval list \<Rightarrow> pyval list" where
  "place_row t cols r =
     map (\<lambda>(c, ty). case map_of (zip cols r) c of None \<Rightarrow> VNone | Some v \<Rightarrow> v) (data_columns t)"

definition insert_rows :: "table \<Rightarrow> string list \<Rightarrow> pyval list list \<Rightarrow> table option" where
  "insert_rows t cols data =
     (if distinct cols \<and> list_all (row_fits t cols) data
      then Some (t\<lparr>table_rows := table_rows t @ map (place_row t cols) data\<rparr>)
      else None)"

definition insert_into_mysql :: "pyval frame option \<Rightarrow> string \<Rightarrow> string list \<Rightarrow> unit eff" where
  "insert_into_mysql df tbl cols w =
     (case df of
        None \<Rightarrow> (Inr (), pr (NoDataFor tbl) w)
      | Some f \<Rightarrow>
          if df_empty f then (Inr (), pr (NoDataFor tbl) w)
          else if \<not> server_up w then (Inl DatabaseError, w)
          else
            let w1 = w\<lparr>connections := connections w + 1\<rparr>
            in case database w1 of
                 None \<Rightarrow> (Inl DatabaseError, w1)
               | Some db \<Rightarrow>
                   (case select_columns cols f of
                      None \<Rightarrow> (Inr (), pr (InsertError tbl) w1)
                    | Some data \<Rightarrow>
                        (case map_of db tbl of
                           None \<Rightarrow> (Inr (), pr (InsertError tbl) w1)
                         | Some t \<Rightarrow>
                             (case insert_rows t cols (map (map nan_to_none) data) of
                                None \<Rightarrow> (Inr (), pr (InsertError tbl) w1)
                              | Some t' \<Rightarrow>
                                  (Inr (), pr (Inserted (length data) tbl)
                                     (w1\<lparr>database := Some (AList.update tbl t' db)\<rparr>))))))"

subsection \<open>Countries (lines 111 to 137)\<close>

text \<open>
  \<^verbatim>\<open>df.columns = [...]\<close> raises ValueError unless the frame has as many columns as
  there are names. From then on a column is addressed by the position of its name.
  \<open>records_countries\<close> is lines 118 to 129 and the selection of line 132: the
  normalized records, one for each row of the table, before duplicates are dropped.
\<close>

definition records_countries :: "cell frame \<Rightarrow> error + pyval list list" where
  "records_countries df =
     (if length (columns df) \<noteq> 7 then Inl ValueError
      else
        let name = map (\<lambda>c. VStr (astype_str c)) (column 1 df)
        in case currency_float (column 2 df) of Inl e \<Rightarrow> Inl e | Inr total_earnings \<Rightarrow>
           case digits_int (column 3 df) of Inl e \<Rightarrow> Inl e | Inr num_players \<Rightarrow>
           let top_game = map (\<lambda>c. VStr (astype_str c)) (column 4 df)
           in case currency_float (column 5 df) of Inl e \<Rightarrow> Inl e | Inr game_earnings \<Rightarrow>
              case percent_float (column 6 df) of Inl e \<Rightarrow> Inl e | Inr game_percent \<Rightarrow>
              Inr (rows_of_columns (length (rows df))
                     [name, total_earnings, num_players, top_game, game_earnings, game_percent]))"

text \<open>Lines 132 and 133: the six columns, then \<^verbatim>\<open>drop_duplicates()\<close>.\<close>

definition clean_countries :: "cell frame \<Rightarrow> error + pyval frame" where
  "clean_countries df =
     (case records_countries df of
        Inl e \<Rightarrow> Inl e
      | Inr recs \<Rightarrow>
          Inr \<lparr>columns = [''name'', ''total_earnings'', ''num_players'', ''top_game'',
                          ''game_earnings'', ''game_percent''],
               rows = drop_duplicates recs\<rparr>)"

definition countries_url :: string where
  "countries_url = ''https://www.esportsearnings.com/countries''"

definition scrape_countries :: "web \<Rightarrow> unit eff" where
  "scrape_countries web w =
     (case fetch_html_table web countries_url (pr ScrapingCountries w) of
        (None, w1) \<Rightarrow> (Inr (), pr NoCountryData w1)
      | (Some df, w1) \<Rightarrow>
          (case clean_countries df of
             Inl e \<Rightarrow> (Inl e, w1)
           | Inr cdf \<Rightarrow>
               insert_into_mysql (Some cdf) ''countries''
                 [''name'', ''total_earnings'', ''num_players'', ''top_game'', ''game_earnings'',
                  ''game_percent''] w1))"

subsection \<open>Players (lines 139 to 171)\<close>

text \<open>The addresses of line 141, for \<^verbatim>\<open>i\<close> in \<^verbatim>\<open>range(0, 1001, 100)\<close>.\<close>

definition players_urls :: "string list" where
  "players_urls =
     ''https://www.esportsearnings.com/players/highest-earnings'' #
     map (\<lambda>i. ''https://www.esportsearnings.com/players/highest-earnings-top-'' @ i)
       [''100'', ''200'', ''300'', ''400'', ''500'', ''600'', ''700'', ''800'', ''900'', ''1000'']"

text \<open>The label of line 149 is the one character U+00C2.\<close>

definition stray_label :: string where
  "stray_label = [CHR 0xC2]"

definition records_players :: "cell frame \<Rightarrow> error + pyval list list" where
  "records_players df0 =
     (let df = (if stray_label \<in> set (columns df0) then drop_label stray_label df0 else df0)
      in if length (columns df) \<noteq> 6 then Inl ValueError
         else
           let player_id = map (\<lambda>c. VStr (astype_str c)) (column 0 df);
               player_name = map (\<lambda>c. VStr (astype_str c)) (column 1 df)
           in case currency_int (column 2 df) of Inl e \<Rightarrow> Inl e | Inr total_earnings \<Rightarrow>
              let main_game = map (\<lambda>c. VStr (astype_str c)) (column 3 df)
              in case percent_float (column 5 df) of Inl e \<Rightarrow> Inl e | Inr earnings_percent \<Rightarrow>
                 Inr (rows_of_columns (length (rows df))
                        [player_id, player_name, total_earnings, main_game, earnings_percent]))"

text \<open>Lines 166 and 167: the five columns, then \<^verbatim>\<open>drop_duplicates()\<close>.\<close>

definition clean_players :: "cell frame \<Rightarrow> error + pyval frame" where
  "clean_players df0 =
     (case records_players df0 of
        Inl e \<Rightarrow> Inl e
      | Inr recs \<Rightarrow>
          Inr \<lparr>columns = [''player_id'', ''player_name'', ''total_earnings'', ''main_game'',
                          ''earnings_percent''],
               rows = drop_duplicates recs\<rparr>)"

definition scrape_players :: "web \<Rightarrow> unit eff" where
  "scrape_players web w =
     (case fetch_multiple_tables web players_urls (pr ScrapingPlayers w) of
        (Inl e, w1) \<Rightarrow> (Inl e, w1)
      | (Inr None, w1) \<Rightarrow> (Inr (), pr FailedPlayers w1)
      | (Inr (Some df), w1) \<Rightarrow>
          (let w2 = pr (AvailableColumns ''players'' (columns df)) w1
           in case clean_players df of
                Inl e \<Rightarrow> (Inl e, w2)
              | Inr cdf \<Rightarrow>
                  insert_into_mysql (Some cdf) ''players''
                    [''player_id'', ''player_name'', ''total_earnings'', ''main_game'',
                     ''earnings_percent''] w2))"

subsection \<open>Tournaments (lines 173 to 213)\<close>

definition tournaments_urls :: "string list" where
  "tournaments_urls =
     map (\<lambda>s. ''https://www.esportsearnings.com/tournaments/largest-overall-prize-pools'' @ s)
       ['''', ''-x100'', ''-x200'', ''-x300'', ''-x400'']"

text \<open>The loop of lines 186 to 194, which has its own \<^verbatim>\<open>try\<close> around each page.\<close>

fun fetch_tournament_pages :: "web \<Rightarrow> string list \<Rightarrow> world \<Rightarrow> cell frame list \<times> world" where
  "fetch_tournament_pages web [] w = ([], w)"
| "fetch_tournament_pages web (u # us) w =
     (case web u of
        Raises \<Rightarrow> fetch_tournament_pages web us (pr (FetchError u) w)
      | Tables [] \<Rightarrow> fetch_tournament_pages web us (pr (NoTableAt u) w)
      | Tables (t # ts) \<Rightarrow>
          (let (dfs, w1) = fetch_tournament_pages web us w in (t # dfs, w1)))"

text \<open>\<^verbatim>\<open>combined_df.iloc[:, :4]\<close>: the first four columns, or all of them when there are fewer.\<close>

definition first_columns :: "nat \<Rightarrow> 'a frame \<Rightarrow> 'a frame" where
  "first_columns n f = \<lparr>columns = take n (columns f), rows = map (take n) (rows f)\<rparr>"

definition records_tournaments :: "cell frame \<Rightarrow> error + pyval list list" where
  "records_tournaments combined =
     (let df = first_columns 4 combined
      in if length (columns df) \<noteq> 4 then Inl ValueError
         else case currency_int (column 2 df) of Inl e \<Rightarrow> Inl e | Inr prize_pool \<Rightarrow>
           Inr (rows_of_columns (length (rows df))
                  [map raw_value (column 1 df), prize_pool, map raw_value (column 3 df)]))"

text \<open>Line 207: the three columns, then \<^verbatim>\<open>drop_duplicates()\<close>.\<close>

definition clean_tournaments :: "cell frame \<Rightarrow> error + pyval frame" where
  "clean_tournaments combined =
     (case records_tournaments combined of
        Inl e \<Rightarrow> Inl e
      | Inr recs \<Rightarrow>
          Inr \<lparr>columns = [''tournament_name'', ''prize_pool'', ''game''],
               rows = drop_duplicates recs\<rparr>)"

definition scrape_tournaments :: "web \<Rightarrow> unit eff" where
  "scrape_tournaments web w =
     (case fetch_tournament_pages web tournaments_urls (pr ScrapingTournaments w) of
        ([], w1) \<Rightarrow> (Inr (), pr NoTournamentData w1)
      | (f # fs, w1) \<Rightarrow>
          (case pd_concat (f # fs) of
             Inl e \<Rightarrow> (Inl e, w1)
           | Inr combined \<Rightarrow>
               (case clean_tournaments combined of
                  Inl e \<Rightarrow> (Inl e, w1)
                | Inr final_df \<Rightarrow>
                    insert_into_mysql (Some final_df) ''tournaments''
                      [''tournament_name'', ''prize_pool'', ''game''] w1)))"

subsection \<open>Teams (lines 215 to 242)\<close>

text \<open>The addresses of line 219, for \<^verbatim>\<open>i\<close> in \<^verbatim>\<open>range(0, 500, 100)\<close>.\<close>

definition teams_urls :: "string list" where
  "teams_urls =
     ''https://www.esportsearnings.com/teams/highest-overall'' #
     map (\<lambda>i. ''https://www.esportsearnings.com/teams/highest-overall-x'' @ i)
       [''100'', ''200'', ''300'', ''400'']"

definition records_teams :: "cell frame \<Rightarrow> error + pyval list list" where
  "records_teams df =
     (if length (columns df) \<noteq> 4 then Inl ValueError
      else
        let team_name = map (\<lambda>c. VStr (astype_str c)) (column 1 df)
        in case currency_int (column 2 df) of Inl e \<Rightarrow> Inl e | Inr revenue \<Rightarrow>
           case count_int (column 3 df) of Inl e \<Rightarrow> Inl e | Inr tournaments_played \<Rightarrow>
           Inr (rows_of_columns (length (rows df)) [team_name, revenue, tournaments_played]))"

text \<open>Line 237: the three columns, then \<^verbatim>\<open>drop_duplicates()\<close>.\<close>

definition clean_teams :: "cell frame \<Rightarrow> error + pyval frame" where
  "clean_teams df =
     (case records_teams df of
        Inl e \<Rightarrow> Inl e
      | Inr recs \<Rightarrow>
          Inr \<lparr>columns = [''team_name'', ''revenue'', ''tournaments_played''],
               rows = drop_duplicates recs\<rparr>)"

definition scrape_teams :: "web \<Rightarrow> unit eff" where
  "scrape_teams web w =
     (case fetch_multiple_tables web teams_urls (pr ScrapingTeams w) of
        (Inl e, w1) \<Rightarrow> (Inl e, w1)
      | (Inr None, w1) \<Rightarrow> (Inr (), pr FailedTeams (pr SavedCsvNote w1))
      | (Inr (Some df), w1) \<Rightarrow>
          (let w2 = pr (AvailableColumns ''teams'' (columns df)) w1
           in case clean_teams df of
                Inl e \<Rightarrow> (Inl e, w2)
              | Inr cdf \<Rightarrow>
                  insert_into_mysql (Some cdf) ''teams''
                    [''team_name'', ''revenue'', ''tournaments_played''] w2))"

subsection \<open>Main (lines 245 to 252)\<close>

text \<open>Nothing in \<^verbatim>\<open>main\<close> catches an exception: the first call that raises ends the run.\<close>

definition main :: "web \<Rightarrow> unit eff" where
  "main web =
     seqs [\<lambda>w. (Inr (), pr Starting w),
           init_database,
           scrape_countries web,
           scrape_players web,
           scrape_tournaments web,
           scrape_teams web,
           \<lambda>w. (Inr (), pr AllDone w)]"

subsection \<open>Shapes of input for the statements below\<close>

text \<open>
  An entry of a \<^verbatim>\<open>tournaments_played\<close> column: \<open>Inl ds\<close> stands for the count string
  made of the digits \<open>ds\<close> and the word \<^verbatim>\<open>Tournaments\<close>, \<open>Inr c\<close> for any other cell.
  An entry is in range (\<open>count_entry\<close>) when its number is at most \<open>2^53\<close>, or when
  the text of the other cell, the word and the commas cut out, is no numeric literal or
  is the literal \<^verbatim>\<open>nan\<close> (the text that \<^verbatim>\<open>astype(str)\<close> makes of an empty cell).
\<close>

definition count_cell :: "string + cell \<Rightarrow> cell" where
  "count_cell e = (case e of Inl ds \<Rightarrow> Text (ds @ '' Tournaments'') | Inr c \<Rightarrow> c)"

definition count_expected :: "string + cell \<Rightarrow> pyval" where
  "count_expected e = (case e of Inl ds \<Rightarrow> VInt (int (nat_of_digits ds)) | Inr c \<Rightarrow> VInt 0)"

definition count_entry :: "string + cell \<Rightarrow> bool" where
  "count_entry e =
     (case e of
        Inl ds \<Rightarrow> ds \<noteq> [] \<and> list_all is_digit ds \<and> nat_of_digits ds \<le> max_exact
      | Inr c \<Rightarrow> parse_number (played_text c) = None
                 \<or> parse_number (played_text c) = Some NaNLit)"

text \<open>The literal that \<^verbatim>\<open>pd.to_numeric\<close> reads in the text of an entry in range.\<close>

definition count_lit :: "string + cell \<Rightarrow> numlit option" where
  "count_lit e =
     (case e of
        Inl ds \<Rightarrow> Some (IntLit (int (nat_of_digits ds)))
      | Inr c \<Rightarrow> parse_number (played_text c))"

text \<open>
  The table that \<^verbatim>\<open>fetch_html_table\<close> gets from an address: the first table of the page,
  if \<^verbatim>\<open>pd.read_html\<close> returns one.
\<close>

definition fetched :: "web \<Rightarrow> string \<Rightarrow> cell frame option" where
  "fetched web url = (case web url of Tables (t # ts) \<Rightarrow> Some t | _ \<Rightarrow> None)"

text \<open>A new MySQL server that is running, and nothing printed yet.\<close>

definition fresh :: world where
  "fresh = \<lparr>server_up = True, database = None, out = [], connections = 0\<rparr>"

text \<open>The table of a name in \<^verbatim>\<open>esports_data\<close>, if the database and the table exist.\<close>

definition lookup_table :: "world \<Rightarrow> string \<Rightarrow> table option" where
  "lookup_table w n = (case database w of None \<Rightarrow> None | Some db \<Rightarrow> map_of db n)"

text \<open>
  A web in which one address serves one table and \<^verbatim>\<open>pd.read_html\<close> raises for every
  other address.
\<close>

definition single_page :: "string \<Rightarrow> cell frame \<Rightarrow> web" where
  "single_page url t = (\<lambda>u. if u = url then Tables [t] else Raises)"

definition teams_first_url :: string where
  "teams_first_url = ''https://www.esportsearnings.com/teams/highest-overall''"

text \<open>The rows of a table of the database, \<open>None\<close> when there is no such table.\<close>

definition rows_in :: "world \<Rightarrow> string \<Rightarrow> pyval list list option" where
  "rows_in w n = map_option table_rows (lookup_table w n)"

text \<open>
  The page of the end-to-end example, once with the three cells per row that the
  example lists and once with the rank cell that a row of the teams pages starts with.
\<close>

definition teams_page_three :: "cell frame" where
  "teams_page_three =
     \<lparr>columns = [''Team'', ''Earnings'', ''Tournaments''],
      rows = [[Text ''TeamA'', Text ''$500'', Text ''10 Tournaments''],
              [Text ''TeamA'', Text ''$500'', Text ''10 Tournaments''],
              [Text ''TeamB'', Text ''$300'', Text ''4 Tournaments'']]\<rparr>"

text \<open>A teams page with a revenue of \<open>2^53 + 1\<close> dollars.\<close>

definition teams_page_big :: "cell frame" where
  "teams_page_big =
     \<lparr>columns = [''#'', ''Team'', ''Earnings'', ''Tournaments''],
      rows = [[Text ''1.'', Text ''TeamA'', Text ''$9,007,199,254,740,993'',
               Text ''10 Tournaments'']]\<rparr>"

definition teams_page_four :: "cell frame" where
  "teams_page_four =
     \<lparr>columns = [''#'', ''Team'', ''Earnings'', ''Tournaments''],
      rows = [[Text ''1.'', Text ''TeamA'', Text ''$500'', Text ''10 Tournaments''],
              [Text ''1.'', Text ''TeamA'', Text ''$500'', Text ''10 Tournaments''],
              [Text ''3.'', Text ''TeamB'', Text ''$300'', Text ''4 Tournaments'']]\<rparr>"

subsection \<open>The four datasets of a run\<close>

datatype dataset = Countries | Players | Tournaments | Teams

definition datasets :: "dataset list" where
  "datasets = [Countries, Players, Tournaments, Teams]"

fun scrape :: "dataset \<Rightarrow> web \<Rightarrow> unit eff" where
  "scrape Countries = scrape_countries"
| "scrape Players = scrape_players"
| "scrape Tournaments = scrape_tournaments"
| "scrape Teams = scrape_teams"

text \<open>
  The table on which a dataset sets its column names: for countries the table of the one
  page; for the others the concatenation of the tables fetched, for players after the
  column labelled U+00C2 is dropped, for tournaments cut to its first four columns.
  \<open>None\<close> when no page was fetched or \<^verbatim>\<open>pd.concat\<close> raised.
\<close>

definition aggregated :: "web \<Rightarrow> string list \<Rightarrow> cell frame option" where
  "aggregated web urls =
     (case not_none (map (fetched web) urls) of
        [] \<Rightarrow> None
      | f # fs \<Rightarrow> (case pd_concat (f # fs) of Inl e \<Rightarrow> None | Inr df \<Rightarrow> Some df))"

fun raw_table :: "dataset \<Rightarrow> web \<Rightarrow> cell frame option" where
  "raw_table Countries web = fetched web countries_url"
| "raw_table Players web =
     map_option (\<lambda>df. if stray_label \<in> set (columns df) then drop_label stray_label df else df)
       (aggregated web players_urls)"
| "raw_table Tournaments web = map_option (first_columns 4) (aggregated web tournaments_urls)"
| "raw_table Teams web = aggregated web teams_urls"

text \<open>
  The frame on which a dataset sets its names, the records it makes of a table, and the
  cleaned frame of the records without duplicates.
\<close>

fun named_frame :: "dataset \<Rightarrow> cell frame \<Rightarrow> cell frame" where
  "named_frame Countries df = df"
| "named_frame Players df =
     (if stray_label \<in> set (columns df) then drop_label stray_label df else df)"
| "named_frame Tournaments df = first_columns 4 df"
| "named_frame Teams df = df"

fun records :: "dataset \<Rightarrow> cell frame \<Rightarrow> error + pyval list list" where
  "records Countries = records_countries"
| "records Players = records_players"
| "records Tournaments = records_tournaments"
| "records Teams = records_teams"


text \<open>A countries page of one row and a tournaments page of five columns.\<close>

definition countries_page_one :: "cell frame" where
  "countries_page_one =
     \<lparr>columns = [''#'', ''Country'', ''Earnings'', ''Players'', ''Game'', ''Game Earnings'',
                 ''% of Total''],
      rows = [[Text ''1.'', Text ''United States'', Text ''$1,234,567'', Text ''27,543 Players'',
               Text ''Fortnite'', Text ''$500'', Text ''50%'']]\<rparr>"

definition tournaments_page_five :: "cell frame" where
  "tournaments_page_five =
     \<lparr>columns = [''#'', ''Tournament'', ''Prize'', ''Game'', ''Teams''],
      rows = [[Text ''1.'', Text ''The Cup'', Text ''$1,000'', Text ''Dota 2'', Text ''16'']]\<rparr>"


text \<open>
  The money columns: the position in the named frame and the position of the field in
  the record. \<open>number_of\<close> is the number a cleaned value stands for.
\<close>

fun money_positions :: "dataset \<Rightarrow> (nat \<times> nat) list" where
  "money_positions Countries = [(2, 1), (5, 4)]"
| "money_positions Players = [(2, 2)]"
| "money_positions Tournaments = [(2, 1)]"
| "money_positions Teams = [(2, 1)]"

fun number_of :: "pyval \<Rightarrow> rat option" where
  "number_of (VInt i) = Some (of_int i)"
| "number_of (VFlt r) = Some r"
| "number_of v = None"

text \<open>The number of names that the dataset assigns to \<^verbatim>\<open>df.columns\<close>.\<close>

fun expected_columns :: "dataset \<Rightarrow> nat" where
  "expected_columns Countries = 7"
| "expected_columns Players = 6"
| "expected_columns Tournaments = 4"
| "expected_columns Teams = 4"

text \<open>
  The lines of a dataset: the line that opens it, and its status lines, which are the
  count of rows inserted or the reason why nothing was inserted. The other lines (one for
  each page that failed, the labels found, the start and the end of the run) belong to
  no dataset.
\<close>

datatype tag = Header dataset | Status dataset

definition dataset_of_table :: "string \<Rightarrow> dataset option" where
  "dataset_of_table t =
     (if t = ''countries'' then Some Countries else if t = ''players'' then Some Players
      else if t = ''tournaments'' then Some Tournaments else if t = ''teams'' then Some Teams
      else None)"

fun tag_of :: "msg \<Rightarrow> tag option" where
  "tag_of ScrapingCountries = Some (Header Countries)"
| "tag_of ScrapingPlayers = Some (Header Players)"
| "tag_of ScrapingTournaments = Some (Header Tournaments)"
| "tag_of ScrapingTeams = Some (Header Teams)"
| "tag_of (NoDataFor t) = map_option Status (dataset_of_table t)"
| "tag_of (Inserted n t) = map_option Status (dataset_of_table t)"
| "tag_of (InsertError t) = map_option Status (dataset_of_table t)"
| "tag_of NoCountryData = Some (Status Countries)"
| "tag_of FailedPlayers = Some (Status Players)"
| "tag_of NoTournamentData = Some (Status Tournaments)"
| "tag_of FailedTeams = Some (Status Teams)"
| "tag_of m = None"

text \<open>
  The lines that a dataset prints between its opening line and the setting of its column
  names: a page that could not be fetched (lines 80 and 194), a page without a table
  (line 192), the labels found (lines 146 and 225).
\<close>

fun side_line :: "msg \<Rightarrow> bool" where
  "side_line (FetchError u) = True"
| "side_line (NoTableAt u) = True"
| "side_line (AvailableColumns t cs) = True"
| "side_line m = False"

fun tags :: "msg list \<Rightarrow> tag list" where
  "tags [] = []"
| "tags (m # ms) = (case tag_of m of None \<Rightarrow> tags ms | Some t \<Rightarrow> t # tags ms)"

text \<open>The dataset lines that a run \<open>main web w\<close> adds to those printed before.\<close>

definition run_tags :: "web \<Rightarrow> world \<Rightarrow> tag list" where
  "run_tags web w = drop (length (tags (out w))) (tags (out (snd (main web w))))"

definition full_report :: "tag list" where
  "full_report = concat (map (\<lambda>d. [Header d, Status d]) datasets)"

text \<open>The dataset lines of datasets that all ran to their status line.\<close>

definition report :: "dataset list \<Rightarrow> tag list" where
  "report ds = concat (map (\<lambda>d. [Header d, Status d]) ds)"

text \<open>The run up to the dataset \<open>d\<close>: the start line, the database setup, the datasets before \<open>d\<close>.\<close>

definition run_before :: "dataset \<Rightarrow> web \<Rightarrow> unit eff" where
  "run_before d web =
     seqs ([\<lambda>w. (Inr (), pr Starting w), init_database]
           @ map (\<lambda>x. scrape x web) (takeWhile (\<lambda>x. x \<noteq> d) datasets))"

text \<open>Webs for the examples: a page for the players, and a page for countries and teams.\<close>

definition players_first_url :: string where
  "players_first_url = ''https://www.esportsearnings.com/players/highest-earnings''"

definition short_page :: "cell frame" where
  "short_page = \<lparr>columns = [''Name'', ''Earnings''], rows = [[Text ''A'', Text ''$1'']]\<rparr>"

definition countries_short_web :: web where
  "countries_short_web =
     (\<lambda>u. if u = countries_url then Tables [short_page]
          else if u = teams_first_url then Tables [teams_page_four] else Raises)"

section \<open>Properties\<close>

subsection \<open>Numbers: exact floats and digit strings\<close>

lemma round_half_even_of_int: "round_half_even (of_int i) = i"
  by (simp add: round_half_even_def)

lemma bitlen_1: "bitlen 1 = 1"
  by (subst compute_bitlen) simp

lemma floor_log2_of_nat:
  assumes "0 < n"
  shows "floor_log2 (of_nat n) = bitlen (int n) - 1"
proof -
  have q: "quotient_of (of_nat n :: rat) = (int n, 1)"
  proof -
    have "quotient_of (Fract (int n) 1) = Rat.normalize (int n, 1)"
      by (rule quotient_of_Fract)
    then show ?thesis
      by (simp add: Fract_of_int_eq Rat.normalize_def)
  qed
  have b: "2 ^ nat (bitlen (int n) - 1) \<le> int n"
    using bitlen_bounds [of "int n"] assms by simp
  have nn: "0 \<le> bitlen (int n) - 1"
    using assms bitlen_nonneg [of "int n"] bitlen_eq_zero_iff [of "int n"] by simp
  have "(2::rat) ^ nat (bitlen (int n) - 1) \<le> of_nat n"
  proof -
    have "(of_int (2 ^ nat (bitlen (int n) - 1)) :: rat) \<le> of_int (int n)"
      using b by (simp only: of_int_le_iff)
    then show ?thesis by simp
  qed
  then show ?thesis
    using nn by (simp add: floor_log2_def q pow2_def bitlen_1)
qed

lemma bitlen_le_53:
  assumes "0 < n" "n < 2 ^ 53"
  shows "bitlen (int n) \<le> 53"
proof -
  have "int n < 2 ^ 53" using assms by (metis of_nat_less_numeral_power_cancel_iff)
  then show ?thesis
    using bitlen_le_iff_power [of "int n" 53] by simp
qed

lemma of_nat_mult_pow2_int:
  assumes "e \<le> 0"
  shows "(of_nat n :: rat) / pow2 e = of_int (int n * 2 ^ nat (- e))"
  using assms by (simp add: pow2_def)

lemma round_float64_small:
  assumes "n < 2 ^ 53"
  shows "round_float64 (of_nat n) = VFlt (of_nat n)"
proof (cases "n = 0")
  case True
  then show ?thesis by (simp add: round_float64_def)
next
  case False
  then have pos: "0 < n" by simp
  define e where "e = max (floor_log2 \<bar>of_nat n\<bar> - 52) (- 1074)"
  have e0: "e \<le> 0"
    using bitlen_le_53 [OF pos assms] by (simp add: e_def floor_log2_of_nat [OF pos])
  have p: "pow2 e \<noteq> 0" by (simp add: pow2_def)
  have r: "round_half_even (of_nat n / pow2 e) = int n * 2 ^ nat (- e)"
    by (simp only: of_nat_mult_pow2_int [OF e0] round_half_even_of_int)
  have y: "of_int (round_half_even (of_nat n / pow2 e)) * pow2 e = (of_nat n :: rat)"
    unfolding r using e0 by (simp add: pow2_def)
  have "(of_nat n :: rat) < 2 ^ 53"
    using assms by (metis of_nat_less_numeral_power_cancel_iff)
  also have "\<dots> \<le> 2 ^ 1024" by (rule power_increasing) simp_all
  finally have lt: "(of_nat n :: rat) < pow2 1024" by (simp add: pow2_def)
  show ?thesis
    using False lt unfolding round_float64_def e_def [symmetric] Let_def y
    by simp
qed

lemma round_float64_2p53: "round_float64 (of_nat (2 ^ 53)) = VFlt (of_nat (2 ^ 53))"
proof -
  have b: "bitlen (int (2 ^ 53)) = 54"
    using bitlen_pow2 [of 1 53] by (simp add: bitlen_1)
  have f: "floor_log2 \<bar>of_nat (2 ^ 53)\<bar> = 53"
    using floor_log2_of_nat [of "2 ^ 53"] b by simp
  have d: "(of_nat (2 ^ 53) :: rat) / pow2 1 = of_int (2 ^ 52)"
    by (simp add: pow2_def)
  have r: "round_half_even (of_nat (2 ^ 53) / pow2 1) = 2 ^ 52"
    unfolding d by (rule round_half_even_of_int)
  have y: "of_int (round_half_even (of_nat (2 ^ 53) / pow2 1)) * pow2 1 = (of_nat (2 ^ 53) :: rat)"
    unfolding r by (simp add: pow2_def)
  have "(2::rat) ^ 53 < 2 ^ 1024" by (rule power_strict_increasing) simp_all
  then have lt: "\<not> pow2 1024 \<le> \<bar>of_nat (2 ^ 53) :: rat\<bar>" by (simp add: pow2_def)
  have nz: "(of_nat (2 ^ 53) :: rat) \<noteq> 0" by simp
  show ?thesis
    unfolding round_float64_def f Let_def using lt nz y by simp
qed

lemma round_float64_of_nat:
  assumes "n \<le> 2 ^ 53"
  shows "round_float64 (of_nat n) = VFlt (of_nat n)"
proof (cases "n = 2 ^ 53")
  case True
  then show ?thesis by (simp only: round_float64_2p53)
next
  case False
  with assms have "n < 2 ^ 53" by simp
  then show ?thesis by (rule round_float64_small)
qed

lemma is_digit_not_space: "is_digit c \<Longrightarrow> \<not> is_space c"
  by (auto simp: is_digit_def is_space_def)

lemma is_digit_not_sign: "is_digit c \<Longrightarrow> c \<noteq> CHR ''-'' \<and> c \<noteq> CHR ''+'' \<and> c \<noteq> CHR '','' \<and> c \<noteq> CHR ''$'' \<and> c \<noteq> CHR '' ''"
  by (auto simp: is_digit_def)

lemma is_digit_lower: "is_digit c \<Longrightarrow> to_lower c = c"
  by (auto simp: is_digit_def to_lower_def)

lemma strip_digits:
  assumes "list_all is_digit ds"
  shows "strip ds = ds"
proof (cases ds)
  case Nil
  then show ?thesis by (simp add: strip_def)
next
  case (Cons c cs)
  have a: "dropWhile is_space ds = ds"
    using assms Cons by (simp add: is_digit_not_space)
  have "\<not> is_space (hd (rev ds))"
    using assms Cons by (metis is_digit_not_space hd_rev last_in_set list.discI list_all_iff)
  then have b: "dropWhile is_space (rev ds) = rev ds"
    using Cons by (cases "rev ds") auto
  show ?thesis by (simp add: strip_def a b)
qed

lemma split_sign_digits:
  assumes "list_all is_digit ds"
  shows "split_sign ds = (False, ds)"
  using assms by (cases ds) (auto simp: split_sign_def is_digit_not_sign)

lemma lower_digits: "list_all is_digit ds \<Longrightarrow> map to_lower ds = ds"
  by (induction ds) (auto simp: is_digit_lower)

lemma digits_not_special:
  assumes "list_all is_digit ds"
  shows "ds \<noteq> ''inf'' \<and> ds \<noteq> ''infinity'' \<and> ds \<noteq> ''nan''"
  using assms by (auto simp: is_digit_def)

lemma parse_unsigned_digits:
  assumes "ds \<noteq> []" "list_all is_digit ds"
  shows "parse_unsigned ds = Some (IntLit (int (nat_of_digits ds)))"
proof -
  have tw: "takeWhile is_digit ds = ds" and dw: "dropWhile is_digit ds = []"
    using assms by (simp_all add: list_all_iff)
  show ?thesis unfolding parse_unsigned_def Let_def tw dw using assms(1) by simp
qed

lemma parse_number_digits:
  assumes "ds \<noteq> []" "list_all is_digit ds"
  shows "parse_number ds = Some (IntLit (int (nat_of_digits ds)))"
  using assms digits_not_special [OF assms(2)]
  by (simp add: parse_number_def strip_digits split_sign_digits lower_digits
      parse_unsigned_digits)

lemma round_float64_exact:
  "n \<le> max_exact \<Longrightarrow> round_float64 (of_nat n) = VFlt (of_nat n)"
  unfolding max_exact_def by (rule round_float64_of_nat)

lemma drop_underscores_none:
  "CHR ''_'' \<notin> set s \<Longrightarrow> p \<noteq> CHR ''_'' \<Longrightarrow> drop_underscores p s = Some s"
  by (induction s arbitrary: p) auto

lemma is_digit_not_py_space: "is_digit c \<Longrightarrow> \<not> is_py_space c"
  by (auto simp: is_digit_def is_py_space_def is_space_def)

lemma py_strip_digits:
  assumes "list_all is_digit ds"
  shows "py_strip ds = ds"
proof (cases ds)
  case Nil
  then show ?thesis by (simp add: py_strip_def)
next
  case (Cons c cs)
  have a: "dropWhile is_py_space ds = ds"
    using assms Cons by (simp add: is_digit_not_py_space)
  have "\<not> is_py_space (hd (rev ds))"
    using assms Cons by (metis is_digit_not_py_space hd_rev last_in_set list.discI list_all_iff)
  then have b: "dropWhile is_py_space (rev ds) = rev ds"
    using Cons by (cases "rev ds") auto
  show ?thesis by (simp add: py_strip_def a b)
qed

lemma py_literal_digits:
  assumes "list_all is_digit ds"
  shows "py_literal ds = parse_number ds"
proof -
  have "CHR ''_'' \<notin> set ds"
    using assms by (auto simp: list_all_iff is_digit_def)
  then have "drop_underscores (CHR 0x00) ds = Some ds"
    by (rule drop_underscores_none) simp
  then show ?thesis
    by (simp add: py_literal_def py_strip_digits [OF assms])
qed

lemma py_float_digits:
  assumes "ds \<noteq> []" "list_all is_digit ds" "nat_of_digits ds \<le> max_exact"
  shows "py_float ds = Inr (VFlt (of_nat (nat_of_digits ds)))"
  using round_float64_exact [OF assms(3)]
  by (simp add: py_float_def py_literal_digits [OF assms(2)] parse_number_digits [OF assms(1,2)])

lemma filter_digits:
  "list_all is_digit g \<Longrightarrow> filter (\<lambda>c. c \<noteq> CHR ''$'' \<and> c \<noteq> CHR '','') g = g"
  by (induction g) (auto simp: is_digit_not_sign)

lemma filter_join_commas:
  assumes "list_all (\<lambda>g. list_all is_digit g) gs"
  shows "filter (\<lambda>c. c \<noteq> CHR ''$'' \<and> c \<noteq> CHR '','') (join_commas gs) = concat gs"
  using assms by (induction gs rule: join_commas.induct) (simp_all add: filter_digits)

lemma strip_currency_money:
  assumes "digit_groups gs"
  shows "strip_currency (Text (money_text gs)) = Text (concat gs)"
proof -
  have "list_all (\<lambda>g. list_all is_digit g) gs"
    using assms by (auto simp: digit_groups_def list_all_iff)
  then show ?thesis by (simp add: money_text_def filter_join_commas)
qed

lemma digit_groups_concat:
  assumes "digit_groups gs"
  shows "concat gs \<noteq> [] \<and> list_all is_digit (concat gs)"
  using assms by (cases gs) (auto simp: digit_groups_def list_all_iff)

lemma astype_float_money:
  assumes "digit_groups gs" "money_value gs \<le> max_exact"
  shows "astype_float (strip_currency (Text (money_text gs))) = Inr (VFlt (of_nat (money_value gs)))"
proof -
  have "py_float (concat gs) = Inr (VFlt (of_nat (nat_of_digits (concat gs))))"
    using digit_groups_concat [OF assms(1)] assms(2)
    by (intro py_float_digits) (simp_all add: money_value_def)
  then show ?thesis
    by (simp only: strip_currency_money [OF assms(1)] astype_float.simps money_value_def)
qed

lemma currency_float_money:
  assumes "list_all (\<lambda>gs. digit_groups gs \<and> money_value gs \<le> max_exact) col"
  shows "currency_float (map (\<lambda>gs. Text (money_text gs)) col)
         = Inr (map (\<lambda>gs. VFlt (of_nat (money_value gs))) col)"
  using assms
  by (induction col)
     (simp_all add: currency_float_def astype_float_money del: strip_currency.simps astype_float.simps)

lemma astype_int_of_nat:
  assumes "n \<le> max_exact"
  shows "astype_int (VFlt (of_nat n)) = Inr (VInt (int n))"
proof -
  have "int n \<le> 2 ^ 53" using assms unfolding max_exact_def by (metis of_nat_le_numeral_power_cancel_iff)
  then have "in_int64 (int n)" by (simp add: in_int64_def int64_min_def int64_max_def)
  moreover have "trunc (of_nat n) = int n" by (simp add: trunc_def)
  ultimately show ?thesis by simp
qed

lemma mapE_astype_int_money:
  assumes "list_all (\<lambda>gs. digit_groups gs \<and> money_value gs \<le> max_exact) col"
  shows "mapE astype_int (map (\<lambda>gs. VFlt (of_nat (money_value gs))) col)
         = Inr (map (\<lambda>gs. VInt (int (money_value gs))) col)"
  using assms by (induction col) (simp_all add: astype_int_of_nat del: astype_int.simps)

lemma round_float64_2p53_plus_1: "round_float64 9007199254740993 = VFlt 9007199254740992"
proof -
  have b: "bitlen 9007199254740993 = 54"
  proof -
    show ?thesis using bitlen_twopow_add_eq [of 1 53] by simp
  qed
  have f: "floor_log2 \<bar>9007199254740993\<bar> = 53"
    using floor_log2_of_nat [of 9007199254740993] b by simp
  have fl: "\<lfloor>9007199254740993 / 2 :: rat\<rfloor> = 4503599627370496"
    by (simp add: floor_eq_iff)
  have r: "round_half_even (9007199254740993 / pow2 1) = 4503599627370496"
    by (simp add: round_half_even_def pow2_def fl Let_def)
  show ?thesis
    unfolding round_float64_def f Let_def
    by (simp add: r) (simp add: pow2_def)
qed

lemma nat_of_digits_2p53_plus_1: "nat_of_digits ''9007199254740993'' = 9007199254740993"
  by (simp add: nat_of_digits_def digit_val_def)

lemma py_float_2p53_plus_1: "py_float ''9007199254740993'' = Inr (VFlt 9007199254740992)"
proof -
  have "parse_number ''9007199254740993'' = Some (IntLit (int (nat_of_digits ''9007199254740993'')))"
    by (rule parse_number_digits) (simp_all add: is_digit_def)
  then have "parse_number ''9007199254740993'' = Some (IntLit 9007199254740993)"
    by (simp only: nat_of_digits_2p53_plus_1) simp
  moreover have "py_literal ''9007199254740993'' = parse_number ''9007199254740993''"
    by (rule py_literal_digits) (simp add: is_digit_def)
  ultimately show ?thesis
    by (simp add: py_float_def round_float64_2p53_plus_1)
qed

lemma astype_int_2p53: "astype_int (VFlt 9007199254740992) = Inr (VInt 9007199254740992)"
  by (simp add: trunc_def in_int64_def int64_min_def int64_max_def)

lemma currency_columns:
  assumes "list_all (\<lambda>gs. digit_groups gs \<and> money_value gs \<le> max_exact) col"
  shows "currency_int (map (\<lambda>gs. Text (money_text gs)) col)
           = Inr (map (\<lambda>gs. VInt (int (money_value gs))) col)
       \<and> currency_float (map (\<lambda>gs. Text (money_text gs)) col)
           = Inr (map (\<lambda>gs. VFlt (of_nat (money_value gs))) col)"
  by (simp add: currency_int_def currency_float_money [OF assms] mapE_astype_int_money [OF assms])


lemma mapE_length: "mapE f xs = Inr ys \<Longrightarrow> length ys = length xs"
  by (induction xs arbitrary: ys) (auto split: sum.splits)

lemma mapE_nth: "mapE f xs = Inr ys \<Longrightarrow> i < length xs \<Longrightarrow> f (xs ! i) = Inr (ys ! i)"
proof (induction xs arbitrary: ys i)
  case Nil
  then show ?case by simp
next
  case (Cons x xs)
  then obtain y zs where "f x = Inr y" "mapE f xs = Inr zs" "ys = y # zs"
    by (auto split: sum.splits)
  then show ?case using Cons by (cases i) auto
qed

lemma those_length: "those xs = Some ys \<Longrightarrow> length ys = length xs"
  by (induction xs arbitrary: ys) (auto split: option.splits)

lemma those_nth: "those xs = Some ys \<Longrightarrow> i < length xs \<Longrightarrow> xs ! i = Some (ys ! i)"
proof (induction xs arbitrary: ys i)
  case Nil
  then show ?case by simp
next
  case (Cons x xs)
  then obtain y zs where "x = Some y" "those xs = Some zs" "ys = y # zs"
    by (auto split: option.splits)
  then show ?case using Cons by (cases i) auto
qed

lemma currency_float_cell:
  assumes "currency_float col = Inr xs" "i < length col"
      and "col ! i = Text (money_text gs)" "digit_groups gs" "money_value gs \<le> max_exact"
  shows "xs ! i = VFlt (of_nat (money_value gs))"
proof -
  have "astype_float (map strip_currency col ! i) = Inr (xs ! i)"
    using assms(1,2) unfolding currency_float_def by (intro mapE_nth) simp_all
  then have "astype_float (strip_currency (Text (money_text gs))) = Inr (xs ! i)"
    using assms(2,3) by simp
  then show ?thesis
    by (simp only: astype_float_money [OF assms(4,5)]) simp
qed

lemma currency_int_cell:
  assumes "currency_int col = Inr res" "i < length col"
      and "col ! i = Text (money_text gs)" "digit_groups gs" "money_value gs \<le> max_exact"
  shows "res ! i = VInt (int (money_value gs))"
proof -
  obtain xs where f: "currency_float col = Inr xs" and o: "mapE astype_int xs = Inr res"
    using assms(1) by (auto simp: currency_int_def split: sum.splits)
  have l: "length xs = length col"
    using f unfolding currency_float_def by (drule_tac mapE_length) simp
  have "astype_int (xs ! i) = Inr (res ! i)"
    using o assms(2) l by (intro mapE_nth) simp_all
  then show ?thesis
    by (simp only: currency_float_cell [OF f assms(2-5)] astype_int_of_nat [OF assms(5)]) simp
qed
subsection \<open>The unit-suffixed count rule\<close>

lemma remove_sub_suffix_digits:
  "list_all is_digit ds \<Longrightarrow> remove_sub '' Tournaments'' (ds @ '' Tournaments'') = ds"
proof (induction ds)
  case Nil
  show ?case by simp
next
  case (Cons c cs)
  then have "c \<noteq> CHR '' ''" by (simp add: is_digit_not_sign)
  then show ?case using Cons by simp
qed

lemma remove_sub_comma_digits:
  "list_all is_digit ds \<Longrightarrow> remove_sub '','' ds = ds"
proof (induction ds)
  case Nil
  show ?case by simp
next
  case (Cons c cs)
  then have "c \<noteq> CHR '',''" by (simp add: is_digit_not_sign)
  then show ?case using Cons by simp
qed

lemma played_text_count:
  "list_all is_digit ds \<Longrightarrow> played_text (Text (ds @ '' Tournaments'')) = ds"
  by (simp add: played_text_def remove_sub_suffix_digits remove_sub_comma_digits)

lemma parse_count_entry:
  assumes "count_entry e"
  shows "parse_number (played_text (count_cell e)) = count_lit e"
proof (cases e)
  case (Inl ds)
  then show ?thesis
    using assms by (simp add: count_entry_def count_cell_def count_lit_def played_text_count
        parse_number_digits)
next
  case (Inr c)
  then show ?thesis
    using assms by (simp add: count_entry_def count_cell_def count_lit_def)
qed

lemma parse_count_entries:
  "list_all count_entry es \<Longrightarrow>
   map parse_number (map played_text (map count_cell es)) = map count_lit es"
  by (induction es) (simp_all add: parse_count_entry)

lemma those_all_Inl:
  "list_all count_entry es \<Longrightarrow> those (map lit_int (map count_lit es)) = Some ints \<Longrightarrow>
   ints = map (\<lambda>e. case e of Inl ds \<Rightarrow> int (nat_of_digits ds) | Inr c \<Rightarrow> 0) es
   \<and> list_all (\<lambda>e. case e of Inl ds \<Rightarrow> True | Inr c \<Rightarrow> False) es"
proof (induction es arbitrary: ints)
  case Nil
  then show ?case by simp
next
  case (Cons e es)
  then show ?case
    by (cases e) (auto simp: count_lit_def count_entry_def split: option.splits)
qed

lemma in_int64_small:
  assumes "n \<le> max_exact"
  shows "in_int64 (int n)"
proof -
  have "int n \<le> 2 ^ 53"
    using assms unfolding max_exact_def by (metis of_nat_le_numeral_power_cancel_iff)
  then show ?thesis by (simp add: in_int64_def int64_min_def int64_max_def)
qed

lemma int_path:
  assumes "list_all count_entry es"
      and "list_all (\<lambda>e. case e of Inl ds \<Rightarrow> True | Inr c \<Rightarrow> False) es"
  shows "list_all in_int64 (map (\<lambda>e. case e of Inl ds \<Rightarrow> int (nat_of_digits ds) | Inr c \<Rightarrow> 0) es)
       \<and> map VInt (map (\<lambda>e. case e of Inl ds \<Rightarrow> int (nat_of_digits ds) | Inr c \<Rightarrow> 0) es)
           = map count_expected es"
  using assms
  by (induction es) (auto simp: count_entry_def count_expected_def in_int64_small split: sum.splits)

lemma astype_int_zero: "astype_int (VFlt 0) = Inr (VInt 0)"
  by (simp add: trunc_def in_int64_def int64_min_def int64_max_def)

lemma float_path_entry:
  assumes "count_entry e"
  shows "astype_int ((\<lambda>x. if x = NaN then VFlt 0 else x) (float_coerce (count_lit e)))
         = Inr (count_expected e)"
proof (cases e)
  case (Inl ds)
  then have le: "nat_of_digits ds \<le> max_exact"
    using assms by (simp add: count_entry_def)
  have "round_float64 (of_int (int (nat_of_digits ds))) = VFlt (of_nat (nat_of_digits ds))"
    using round_float64_exact [OF le] by simp
  then show ?thesis
    using Inl astype_int_of_nat [OF le]
    by (simp add: count_lit_def count_expected_def del: astype_int.simps)
next
  case (Inr c)
  then have "float_coerce (count_lit e) = NaN"
    using assms by (auto simp: count_lit_def count_entry_def)
  then show ?thesis
    using Inr by (simp add: count_expected_def astype_int_zero del: astype_int.simps)
qed

lemma float_path:
  "list_all count_entry es \<Longrightarrow>
   mapE astype_int (map (\<lambda>x. if x = NaN then VFlt 0 else x) (map float_coerce (map count_lit es)))
   = Inr (map count_expected es)"
proof (induction es)
  case Nil
  show ?case by simp
next
  case (Cons e es)
  then have "count_entry e" and "list_all count_entry es" by simp_all
  then show ?case
    using Cons.IH float_path_entry [of e] by (simp del: astype_int.simps)
qed

lemma count_int_entries:
  assumes "list_all count_entry es"
  shows "count_int (map count_cell es) = Inr (map count_expected es)"
proof (cases "those (map lit_int (map count_lit es))")
  case None
  then show ?thesis
    unfolding count_int_def to_numeric_coerce_def parse_count_entries [OF assms] Let_def
    by (simp add: float_path [OF assms] del: astype_int.simps map_map)
next
  case (Some ints)
  note a = those_all_Inl [OF assms Some]
  note b = int_path [OF assms a [THEN conjunct2]]
  show ?thesis
    unfolding count_int_def to_numeric_coerce_def parse_count_entries [OF assms] Let_def Some
    using a b by simp
qed

lemma float_column_cell:
  assumes "mapE astype_int (map (\<lambda>x. if x = NaN then VFlt 0 else x) (map float_coerce ls)) = Inr res"
      and "i < length ls" "ls ! i = count_lit e" "count_entry e"
  shows "res ! i = count_expected e"
proof -
  have "astype_int (map (\<lambda>x. if x = NaN then VFlt 0 else x) (map float_coerce ls) ! i) = Inr (res ! i)"
    using assms(1,2) by (intro mapE_nth) simp_all
  then have "astype_int ((\<lambda>x. if x = NaN then VFlt 0 else x) (float_coerce (count_lit e))) = Inr (res ! i)"
    using assms(2,3) by simp
  then show ?thesis
    by (simp only: float_path_entry [OF assms(4)]) simp
qed

lemma int_column_cell:
  assumes "those (map lit_int ls) = Some ints" "i < length ls" "ls ! i = count_lit e" "count_entry e"
  shows "VInt (ints ! i) = count_expected e \<and> in_int64 (ints ! i)"
proof -
  have "lit_int (count_lit e) = Some (ints ! i)"
    using those_nth [OF assms(1), of i] assms(2,3) by simp
  then obtain ds where e: "e = Inl ds" and v: "ints ! i = int (nat_of_digits ds)"
    using assms(4) by (cases e) (auto simp: count_lit_def count_entry_def)
  have "nat_of_digits ds \<le> max_exact"
    using assms(4) e by (simp add: count_entry_def)
  then have "in_int64 (ints ! i)"
    unfolding v by (rule in_int64_small)
  then show ?thesis
    using e v by (simp add: count_expected_def)
qed

lemma count_int_cell:
  assumes "count_int col = Inr res" "i < length col"
      and "col ! i = count_cell e" "count_entry e"
  shows "res ! i = count_expected e"
proof -
  define ls where "ls = map parse_number (map played_text col)"
  have n: "i < length ls" using assms(2) by (simp add: ls_def)
  have ce: "ls ! i = count_lit e"
    using assms(2,3) parse_count_entry [OF assms(4)] by (simp add: ls_def)
  show ?thesis
  proof (cases "those (map lit_int ls)")
    case None
    then have "mapE astype_int (map (\<lambda>x. if x = NaN then VFlt 0 else x) (map float_coerce ls)) = Inr res"
      using assms(1) by (simp add: count_int_def to_numeric_coerce_def ls_def [symmetric] del: map_map)
    then show ?thesis using n ce assms(4) by (rule float_column_cell)
  next
    case (Some ints)
    note k = int_column_cell [OF Some n ce assms(4)]
    have li: "length ints = length ls"
      using those_length [OF Some] by simp
    consider (a) "list_all in_int64 ints"
      | (b) "\<not> list_all in_int64 ints" "list_all in_uint64 ints"
      | (c) "\<not> list_all in_int64 ints" "\<not> list_all in_uint64 ints"
      by blast
    then show ?thesis
    proof cases
      case a
      then have "res = map VInt ints"
        using assms(1) Some by (simp add: count_int_def to_numeric_coerce_def ls_def [symmetric] del: map_map)
      then show ?thesis using k n li by simp
    next
      case b
      then have "res = map (\<lambda>i. VInt (if in_int64 i then i else i - 2 ^ 64)) ints"
        using assms(1) Some by (simp add: count_int_def to_numeric_coerce_def ls_def [symmetric] del: map_map)
      then show ?thesis using k n li by simp
    next
      case c
      then have "mapE astype_int (map (\<lambda>x. if x = NaN then VFlt 0 else x) (map float_coerce ls)) = Inr res"
        using assms(1) Some by (simp add: count_int_def to_numeric_coerce_def ls_def [symmetric] del: map_map)
      then show ?thesis using n ce assms(4) by (rule float_column_cell)
    qed
  qed
qed

text \<open>
  Claim C8, amended: the rule yields the integer \<open>N\<close> for a count string
  \<^verbatim>\<open>"N Tournaments"\<close> with \<open>N\<close> at most \<open>2^53\<close>, and \<open>0\<close> for a cell whose text is no
  number once the word and the commas are cut out. This holds for the cell in any column
  on which the rule returns, and the rule returns on every column of such cells.
\<close>

theorem count_rule:
  "(list_all count_entry es \<longrightarrow> count_int (map count_cell es) = Inr (map count_expected es))
   \<and> (count_int col = Inr res \<and> i < length col \<and> col ! i = count_cell e \<and> count_entry e \<longrightarrow>
      res ! i = count_expected e)"
  using count_int_entries [of es] count_int_cell [of col res i e]
  by blast

theorem count_rule_witness:
  "count_int [Text ''120 Tournaments'', Text ''n/a'', NA, Text ''4 Tournaments'']
   = Inr [VInt 120, VInt 0, VInt 0, VInt 4]"
proof -
  have h: "list_all count_entry [Inl ''120'', Inr (Text ''n/a''), Inr NA, Inl ''4'']"
    by (simp add: count_entry_def is_digit_def nat_of_digits_def
      digit_val_def max_exact_def played_text_def parse_number_def strip_def is_space_def
      split_sign_def to_lower_def parse_unsigned_def Let_def)
  show ?thesis
    using count_rule [where es = "[Inl ''120'', Inr (Text ''n/a''), Inr NA, Inl ''4'']"
        and col = "[]" and i = 0] h
    by (simp add: count_cell_def count_expected_def nat_of_digits_def digit_val_def)
qed


text \<open>
  Claim C8, as stated: every count string \<^verbatim>\<open>"N Tournaments"\<close> yields \<open>N\<close>. It fails for
  \<open>N = 2^53 + 1\<close> in a column that also holds an unparsable cell: \<^verbatim>\<open>pd.to_numeric\<close> then
  makes the column float64, and the count comes back as \<open>2^53\<close>.
\<close>

theorem count_rule_mixed_column_counterexample:
  "count_int [Text ''9007199254740993 Tournaments'', Text ''n/a'']
   = Inr [VInt 9007199254740992, VInt 0]"
proof -
  have p1: "played_text (Text ''9007199254740993 Tournaments'') = ''9007199254740993''"
    using played_text_count [of "''9007199254740993''"] by (simp add: is_digit_def)
  have p2: "played_text (Text ''n/a'') = ''n/a''"
    by (simp add: played_text_def)
  have n1: "parse_number ''9007199254740993'' = Some (IntLit 9007199254740993)"
  proof -
    have "parse_number ''9007199254740993''
          = Some (IntLit (int (nat_of_digits ''9007199254740993'')))"
      by (rule parse_number_digits) (simp_all add: is_digit_def)
    then show ?thesis by (simp only: nat_of_digits_2p53_plus_1) simp
  qed
  have n2: "parse_number ''n/a'' = None"
    by (simp add: parse_number_def strip_def is_space_def split_sign_def to_lower_def
        parse_unsigned_def is_digit_def Let_def)
  have "to_numeric_coerce (map played_text [Text ''9007199254740993 Tournaments'', Text ''n/a''])
        = Float64Col [VFlt 9007199254740992, NaN]"
    by (simp add: to_numeric_coerce_def p1 p2 n1 n2 round_float64_2p53_plus_1)
  then show ?thesis
    by (simp add: count_int_def astype_int_2p53 astype_int_zero del: astype_int.simps)
qed
subsection \<open>Deduplication\<close>






subsection \<open>The loader without data\<close>

text \<open>
  Claim C10: called with \<^verbatim>\<open>None\<close> or with an empty frame, \<^verbatim>\<open>insert_into_mysql\<close> prints the
  warning line and returns; it opens no connection and leaves the database as it was.
\<close>

theorem loader_without_data:
  assumes "case df of None \<Rightarrow> True | Some f \<Rightarrow> df_empty f"
  shows "insert_into_mysql df tbl cols w = (Inr (), w\<lparr>out := out w @ [NoDataFor tbl]\<rparr>)
       \<and> connections (snd (insert_into_mysql df tbl cols w)) = connections w
       \<and> database (snd (insert_into_mysql df tbl cols w)) = database w"
  using assms by (cases df) (simp_all add: insert_into_mysql_def pr_def)

theorem loader_without_data_witness:
  "insert_into_mysql None ''teams'' [''team_name''] fresh
     = (Inr (), fresh\<lparr>out := [NoDataFor ''teams'']\<rparr>)
   \<and> insert_into_mysql (Some \<lparr>columns = [''team_name''], rows = []\<rparr>) ''teams'' [''team_name''] fresh
     = (Inr (), fresh\<lparr>out := [NoDataFor ''teams'']\<rparr>)"
  using loader_without_data [of None "''teams''" "[''team_name'']" fresh]
    loader_without_data [of "Some \<lparr>columns = [''team_name''], rows = []\<rparr>" "''teams''"
      "[''team_name'']" fresh]
  by (simp add: df_empty_def fresh_def)

subsection \<open>The aggregator\<close>

lemma fetch_html_table_fetched: "fst (fetch_html_table web u w) = fetched web u"
  by (simp add: fetch_html_table_def fetched_def split: page.splits list.splits)

lemma fetch_each_fetched: "fst (fetch_each web urls w) = map (fetched web) urls"
proof (induction urls arbitrary: w)
  case Nil
  show ?case by simp
next
  case (Cons u us)
  show ?case
    using Cons [of "snd (fetch_html_table web u w)"] fetch_html_table_fetched [of web u w]
    by (simp add: split_beta)
qed

lemma pd_concat_same_labels:
  assumes "fs \<noteq> []" "list_all (\<lambda>f. columns f = cols) fs"
  shows "pd_concat fs = Inr \<lparr>columns = cols, rows = concat (map rows fs)\<rparr>"
proof (cases fs)
  case Nil
  with assms show ?thesis by simp
next
  case (Cons f gs)
  then have "columns f = cols" and "list_all (\<lambda>g. columns g = columns f) fs"
    using assms(2) by (simp_all add: list_all_iff)
  then show ?thesis using Cons by (simp add: pd_concat_def)
qed


lemma fetch_multiple_tables_none:
  assumes "not_none (map (fetched web) urls) = []"
  shows "fst (fetch_multiple_tables web urls w) = Inr None"
  using assms fetch_each_fetched [of web urls w]
  by (simp add: fetch_multiple_tables_def split_beta Let_def)

lemma fetch_multiple_tables_same_labels:
  assumes "not_none (map (fetched web) urls) \<noteq> []"
      and "list_all (\<lambda>f. columns f = cols) (not_none (map (fetched web) urls))"
  shows "fst (fetch_multiple_tables web urls w)
         = Inr (Some \<lparr>columns = cols, rows = concat (map rows (not_none (map (fetched web) urls)))\<rparr>)"
  using assms fetch_each_fetched [of web urls w] pd_concat_same_labels [OF assms]
  by (simp add: fetch_multiple_tables_def split_beta Let_def)

lemma fetch_each_world:
  "snd (fetch_each web urls w)
   = w\<lparr>out := out w @ map FetchError (filter (\<lambda>u. web u = Raises) urls)\<rparr>"
proof (induction urls arbitrary: w)
  case Nil
  show ?case by simp
next
  case (Cons u us)
  show ?case
    by (simp add: split_beta Cons fetch_html_table_def pr_def split: page.splits list.splits)
qed

lemma fetch_multiple_tables_world:
  "snd (fetch_multiple_tables web urls w)
   = w\<lparr>out := out w @ map FetchError (filter (\<lambda>u. web u = Raises) urls)\<rparr>"
  using fetch_each_world [of web urls w]
  by (simp add: fetch_multiple_tables_def split_beta Let_def split: sum.splits)

lemma fetch_multiple_tables_all_raise:
  assumes "list_all (\<lambda>u. web u = Raises) urls"
  shows "fetch_multiple_tables web urls w = (Inr None, w\<lparr>out := out w @ map FetchError urls\<rparr>)"
proof -
  have "map (fetched web) urls = map (\<lambda>u. None) urls"
    using assms by (induction urls) (simp_all add: fetched_def)
  then have "not_none (map (fetched web) urls) = []"
    by (induction urls) simp_all
  then have a: "fst (fetch_multiple_tables web urls w) = Inr None"
    by (rule fetch_multiple_tables_none)
  have "filter (\<lambda>u. web u = Raises) urls = urls"
    using assms by (simp add: list_all_iff)
  then have b: "snd (fetch_multiple_tables web urls w) = w\<lparr>out := out w @ map FetchError urls\<rparr>"
    by (simp add: fetch_multiple_tables_world)
  from a b show ?thesis by (simp add: prod_eq_iff)
qed


text \<open>
  Claim C3, as stated: the result holds exactly the rows of the pages fetched, and is an
  empty table when every page fails. It fails when two pages differ in their labels:
  \<^verbatim>\<open>pd.concat\<close> aligns by label, so the rows come back wider and filled with NaN. And
  when every page fails the result is \<^verbatim>\<open>None\<close>, which the callers tell from a table.
\<close>

theorem aggregator_labels_counterexample:
  "fst (fetch_multiple_tables
         (\<lambda>u. if u = ''p1'' then Tables [\<lparr>columns = [''a'', ''b''], rows = [[Text ''1'', Text ''2'']]\<rparr>]
              else Tables [\<lparr>columns = [''a'', ''c''], rows = [[Text ''3'', Text ''4'']]\<rparr>])
         [''p1'', ''p2''] fresh)
   = Inr (Some \<lparr>columns = [''a'', ''b'', ''c''],
                rows = [[Text ''1'', Text ''2'', NA], [Text ''3'', NA, Text ''4'']]\<rparr>)
   \<and> fst (fetch_multiple_tables (\<lambda>u. Raises) [''p1'', ''p2''] fresh) = Inr None"
  by (simp add: fetch_multiple_tables_def fetch_html_table_def pd_concat_def drop_duplicates_def
      reindex_row_def)

text \<open>
  Claim C3, amended: \<^verbatim>\<open>fetch_multiple_tables\<close> never raises because a page failed; it
  prints one line for each address at which \<^verbatim>\<open>pd.read_html\<close> raised and touches nothing
  else. When no page yields a table the result is \<^verbatim>\<open>None\<close>. When the tables fetched all
  carry the same labels, the result holds exactly their rows, in the order of the
  addresses and, within a page, in the order of the page.
\<close>

theorem aggregator:
  "(not_none (map (fetched web) urls) = [] \<longrightarrow>
      fst (fetch_multiple_tables web urls w) = Inr None)
   \<and> (not_none (map (fetched web) urls) \<noteq> []
      \<and> list_all (\<lambda>f. columns f = cols) (not_none (map (fetched web) urls)) \<longrightarrow>
      fst (fetch_multiple_tables web urls w)
        = Inr (Some \<lparr>columns = cols,
                      rows = concat (map rows (not_none (map (fetched web) urls)))\<rparr>))
   \<and> snd (fetch_multiple_tables web urls w)
       = w\<lparr>out := out w @ map FetchError (filter (\<lambda>u. web u = Raises) urls)\<rparr>"
  using fetch_multiple_tables_none [of web urls w]
    fetch_multiple_tables_same_labels [of web urls cols w]
    fetch_multiple_tables_world [of web urls w]
  by blast

theorem aggregator_witness:
  "fst (fetch_multiple_tables
         (\<lambda>u. if u = ''p3'' then Raises else Tables [\<lparr>columns = [''c''], rows = [[Text u], [Text u]]\<rparr>])
         [''p1'', ''p2'', ''p3'', ''p4'', ''p5''] fresh)
   = Inr (Some \<lparr>columns = [''c''],
                rows = [[Text ''p1''], [Text ''p1''], [Text ''p2''], [Text ''p2''],
                        [Text ''p4''], [Text ''p4''], [Text ''p5''], [Text ''p5'']]\<rparr>)
   \<and> fst (fetch_multiple_tables (\<lambda>u. Raises) [''p1'', ''p2''] fresh) = Inr None
   \<and> out (snd (fetch_multiple_tables (\<lambda>u. Raises) [''p1'', ''p2''] fresh))
     = [FetchError ''p1'', FetchError ''p2'']"
  using aggregator [where web = "\<lambda>u. if u = ''p3'' then Raises
        else Tables [\<lparr>columns = [''c''], rows = [[Text u], [Text u]]\<rparr>]"
      and urls = "[''p1'', ''p2'', ''p3'', ''p4'', ''p5'']" and cols = "[''c'']" and w = fresh]
    aggregator [where web = "\<lambda>u. Raises" and urls = "[''p1'', ''p2'']" and cols = "[]"
      and w = fresh]
  by (simp add: fetched_def fresh_def)
subsection \<open>Database setup\<close>

lemma map_of_create_table:
  "map_of (create_table_if_not_exists db (n, t)) m
   = (case map_of db m of Some t0 \<Rightarrow> Some t0 | None \<Rightarrow> if m = n then Some t else None)"
  by (auto simp: create_table_if_not_exists_def map_add_def split: option.splits)

lemma map_of_create_tables:
  "map_of (foldl create_table_if_not_exists db ts) m
   = (case map_of db m of Some t0 \<Rightarrow> Some t0 | None \<Rightarrow> map_of ts m)"
proof (induction ts arbitrary: db)
  case Nil
  show ?case by (simp split: option.splits)
next
  case (Cons nt ts)
  obtain n t where nt: "nt = (n, t)" by (cases nt)
  show ?case
    by (simp add: nt Cons [of "create_table_if_not_exists db (n, t)"] map_of_create_table
        split: option.splits)
qed

lemma create_tables_present:
  "list_all (\<lambda>nt. map_of db (fst nt) \<noteq> None) ts \<Longrightarrow>
   foldl create_table_if_not_exists db ts = db"
  by (induction ts) (auto simp: create_table_if_not_exists_def)

lemma create_tables_twice:
  "foldl create_table_if_not_exists (foldl create_table_if_not_exists db ts) ts
   = foldl create_table_if_not_exists db ts"
proof (rule create_tables_present)
  show "list_all (\<lambda>nt. map_of (foldl create_table_if_not_exists db ts) (fst nt) \<noteq> None) ts"
    unfolding list_all_iff
  proof
    fix nt assume "nt \<in> set ts"
    then have "map_of ts (fst nt) \<noteq> None"
      by (metis map_of_eq_None_iff image_eqI)
    then show "map_of (foldl create_table_if_not_exists db ts) (fst nt) \<noteq> None"
      by (simp add: map_of_create_tables split: option.splits)
  qed
qed

text \<open>
  Claim C5, amended: with the server up, \<^verbatim>\<open>init_database\<close> returns normally; a table that
  existed before is the same table afterwards, rows and columns; each of the four tables
  that did not exist is created empty, with an auto-increment key (\<^verbatim>\<open>rank\<close> for players,
  \<^verbatim>\<open>id\<close> for the others) and the columns of the source, which for tournaments are
  \<^verbatim>\<open>tournament_name, prize_pool, game, participate_team, no_of_player\<close>; a second call returns
  normally and changes no table; nothing is printed.
\<close>

theorem schema_initializer:
  assumes "server_up w"
  shows "fst (init_database w) = Inr ()
       \<and> (\<forall>n. lookup_table (snd (init_database w)) n
               = (case lookup_table w n of Some t \<Rightarrow> Some t | None \<Rightarrow> map_of tables n))
       \<and> fst (init_database (snd (init_database w))) = Inr ()
       \<and> database (snd (init_database (snd (init_database w)))) = database (snd (init_database w))
       \<and> out (snd (init_database w)) = out w
       \<and> map (\<lambda>(n, t). (n, key_column t, map fst (data_columns t), table_rows t)) tables
           = [(''countries'', ''id'', [''name'', ''total_earnings'', ''num_players'', ''top_game'',
                 ''game_earnings'', ''game_percent''], []),
              (''players'', ''rank'', [''player_id'', ''player_name'', ''total_earnings'',
                 ''main_game'', ''earnings_percent''], []),
              (''tournaments'', ''id'', [''tournament_name'', ''prize_pool'', ''game'',
                 ''participate_team'', ''no_of_player''], []),
              (''teams'', ''id'', [''team_name'', ''revenue'', ''tournaments_played''], [])]"
proof -
  have a: "fst (init_database w) = Inr ()"
    using assms by (simp add: init_database_def)
  have b: "\<forall>n. lookup_table (snd (init_database w)) n
               = (case lookup_table w n of Some t \<Rightarrow> Some t | None \<Rightarrow> map_of tables n)"
    using assms
    by (simp add: init_database_def lookup_table_def map_of_create_tables split: option.splits)
  have up: "server_up (snd (init_database w))"
    using assms by (simp add: init_database_def)
  have c: "fst (init_database (snd (init_database w))) = Inr ()"
    using up by (simp add: init_database_def)
  have d: "database (snd (init_database (snd (init_database w)))) = database (snd (init_database w))"
    using assms by (simp add: init_database_def create_tables_twice)
  have e: "out (snd (init_database w)) = out w"
    using assms by (simp add: init_database_def)
  have f: "map (\<lambda>(n, t). (n, key_column t, map fst (data_columns t), table_rows t)) tables
           = [(''countries'', ''id'', [''name'', ''total_earnings'', ''num_players'', ''top_game'',
                 ''game_earnings'', ''game_percent''], []),
              (''players'', ''rank'', [''player_id'', ''player_name'', ''total_earnings'',
                 ''main_game'', ''earnings_percent''], []),
              (''tournaments'', ''id'', [''tournament_name'', ''prize_pool'', ''game'',
                 ''participate_team'', ''no_of_player''], []),
              (''teams'', ''id'', [''team_name'', ''revenue'', ''tournaments_played''], [])]"
    by (simp add: tables_def countries_table_def players_table_def tournaments_table_def
        teams_table_def)
  from a b c d e f show ?thesis by blast
qed

theorem schema_initializer_witness:
  "server_up fresh
   \<and> fst (init_database fresh) = Inr ()
   \<and> lookup_table (snd (init_database fresh)) ''teams'' = Some teams_table
   \<and> database (snd (init_database (snd (init_database fresh)))) = database (snd (init_database fresh))"
proof -
  have h: "server_up fresh" by (simp add: fresh_def)
  have "lookup_table fresh ''teams'' = None" by (simp add: fresh_def lookup_table_def)
  moreover have "map_of tables ''teams'' = Some teams_table" by (simp add: tables_def)
  ultimately show ?thesis
    using schema_initializer [OF h] h by simp
qed

text \<open>
  Claim C5, as stated: the columns of a table besides the key are the fields that the
  dataset loads, for tournaments \<^verbatim>\<open>tournament_name, prize_pool, game\<close>. The table that
  \<^verbatim>\<open>init_database\<close> creates on a new server has two more columns.
\<close>

theorem tournaments_columns_counterexample:
  "map_option (\<lambda>t. map fst (data_columns t)) (lookup_table (snd (init_database fresh)) ''tournaments'')
   = Some [''tournament_name'', ''prize_pool'', ''game'', ''participate_team'', ''no_of_player'']
   \<and> map_option (\<lambda>t. map fst (data_columns t)) (lookup_table (snd (init_database fresh)) ''tournaments'')
   \<noteq> Some [''tournament_name'', ''prize_pool'', ''game'']"
  by (simp add: init_database_def fresh_def lookup_table_def tables_def
      create_table_if_not_exists_def tournaments_table_def)
subsection \<open>Unparsable cells\<close>

text \<open>
  Claim C2 against the code: an unparsable cell, here the text \<^verbatim>\<open>N/A\<close>, makes the
  currency rule, the percentage rule and the count rule of countries raise ValueError,
  while the count rule of teams turns the same cell into \<open>0\<close>. In the teams dataset the
  error leaves the cleaning with the first unparsable revenue.
\<close>

theorem cleaning_raises:
  "currency_int [Text ''N/A''] = Inl ValueError
   \<and> currency_float [Text ''N/A''] = Inl ValueError
   \<and> percent_float [Text ''N/A''] = Inl ValueError
   \<and> digits_int [Text ''N/A''] = Inl ValueError
   \<and> count_int [Text ''N/A''] = Inr [VInt 0]
   \<and> clean_teams \<lparr>columns = [''#'', ''Team'', ''Earnings'', ''Tournaments''],
        rows = [[Text ''1.'', Text ''TeamA'', Text ''N/A'', Text ''10 Tournaments'']]\<rparr>
      = Inl ValueError"
proof -
  have n: "parse_number ''N/A'' = None"
    by (simp add: parse_number_def strip_def is_space_def split_sign_def to_lower_def
        parse_unsigned_def is_digit_def Let_def)
  have pn: "py_literal ''N/A'' = None"
    by (simp add: py_literal_def py_strip_def is_py_space_def is_space_def n)
  have e: "py_literal '''' = None"
    by (simp add: py_literal_def py_strip_def parse_number_def strip_def split_sign_def
        parse_unsigned_def Let_def)
  have f: "currency_float [Text ''N/A''] = Inl ValueError"
    by (simp add: currency_float_def py_float_def pn)
  have p: "percent_float [Text ''N/A''] = Inl ValueError"
    by (simp add: percent_float_def py_float_def pn)
  have d: "digits_int [Text ''N/A''] = Inl ValueError"
    by (simp add: digits_int_def py_int_def is_digit_def e)
  have c: "count_int [Text ''N/A''] = Inr [VInt 0]"
    by (simp add: count_int_def to_numeric_coerce_def played_text_def n astype_int_zero
        del: astype_int.simps)
  have t: "clean_teams \<lparr>columns = [''#'', ''Team'', ''Earnings'', ''Tournaments''],
        rows = [[Text ''1.'', Text ''TeamA'', Text ''N/A'', Text ''10 Tournaments'']]\<rparr>
      = Inl ValueError"
    by (simp add: clean_teams_def records_teams_def column_def currency_int_def f)
  from f p d c t show ?thesis by (simp add: currency_int_def)
qed
subsection \<open>Runs of main\<close>

lemma scrape_countries_no_page:
  assumes "web countries_url = Raises"
  shows "scrape_countries web w
         = (Inr (), w\<lparr>out := out w @ [ScrapingCountries, FetchError countries_url, NoCountryData]\<rparr>)"
  using assms by (simp add: scrape_countries_def fetch_html_table_def pr_def)

lemma scrape_players_no_page:
  assumes "list_all (\<lambda>u. web u = Raises) players_urls"
  shows "scrape_players web w
         = (Inr (), w\<lparr>out := out w @ ScrapingPlayers # map FetchError players_urls @ [FailedPlayers]\<rparr>)"
  by (simp add: scrape_players_def fetch_multiple_tables_all_raise [OF assms] pr_def)

lemma fetch_tournament_pages_no_page:
  assumes "list_all (\<lambda>u. web u = Raises) urls"
  shows "fetch_tournament_pages web urls w = ([], w\<lparr>out := out w @ map FetchError urls\<rparr>)"
  using assms by (induction urls arbitrary: w) (simp_all add: pr_def)

lemma scrape_tournaments_no_page:
  assumes "list_all (\<lambda>u. web u = Raises) tournaments_urls"
  shows "scrape_tournaments web w
         = (Inr (), w\<lparr>out := out w @ ScrapingTournaments # map FetchError tournaments_urls
                                    @ [NoTournamentData]\<rparr>)"
  by (simp add: scrape_tournaments_def fetch_tournament_pages_no_page [OF assms] pr_def)

lemma single_page_elsewhere:
  "single_page teams_first_url t countries_url = Raises"
  "list_all (\<lambda>u. single_page teams_first_url t u = Raises) players_urls"
  "list_all (\<lambda>u. single_page teams_first_url t u = Raises) tournaments_urls"
  by (simp_all add: single_page_def teams_first_url_def countries_url_def players_urls_def
      tournaments_urls_def)

lemma single_page_fetch:
  assumes "url \<notin> set others"
  shows "fetch_multiple_tables (single_page url t) (url # others) w
         = (Inr (Some t), w\<lparr>out := out w @ map FetchError others\<rparr>)"
proof -
  have o: "map (fetched (single_page url t)) others = map (\<lambda>u. None) others"
    using assms by (induction others) (auto simp: fetched_def single_page_def)
  have "not_none (map (\<lambda>u. None :: cell frame option) others) = []"
    by (induction others) simp_all
  then have n: "not_none (map (fetched (single_page url t)) (url # others)) = [t]"
    by (simp add: o) (simp add: fetched_def single_page_def)
  have ne: "not_none (map (fetched (single_page url t)) (url # others)) \<noteq> []"
    by (simp only: n) simp
  have al: "list_all (\<lambda>f. columns f = columns t)
              (not_none (map (fetched (single_page url t)) (url # others)))"
    by (simp only: n) simp
  have a: "fst (fetch_multiple_tables (single_page url t) (url # others) w) = Inr (Some t)"
    using fetch_multiple_tables_same_labels [OF ne al, of w] by (simp only: n) simp
  have "filter (\<lambda>u. single_page url t u = Raises) others = others"
    using assms by (induction others) (auto simp: single_page_def)
  then have "filter (\<lambda>u. single_page url t u = Raises) (url # others) = others"
    by (simp add: single_page_def)
  then have b: "snd (fetch_multiple_tables (single_page url t) (url # others) w)
                = w\<lparr>out := out w @ map FetchError others\<rparr>"
    by (simp only: fetch_multiple_tables_world)
  from a b show ?thesis by (simp add: prod_eq_iff)
qed

lemma teams_urls_split:
  "teams_urls = teams_first_url # tl teams_urls" "teams_first_url \<notin> set (tl teams_urls)"
  by (simp_all add: teams_urls_def teams_first_url_def)

lemma players_urls_split:
  "players_urls = players_first_url # tl players_urls" "players_first_url \<notin> set (tl players_urls)"
  by (simp_all add: players_urls_def players_first_url_def)

lemma single_page_teams:
  "fetch_multiple_tables (single_page teams_first_url t) teams_urls w
   = (Inr (Some t), w\<lparr>out := out w @ map FetchError (tl teams_urls)\<rparr>)"
  using single_page_fetch [OF teams_urls_split(2), of t w] teams_urls_split(1) by simp

lemma single_page_players:
  "fetch_multiple_tables (single_page players_first_url t) players_urls w
   = (Inr (Some t), w\<lparr>out := out w @ map FetchError (tl players_urls)\<rparr>)"
  using single_page_fetch [OF players_urls_split(2), of t w] players_urls_split(1) by simp

lemma clean_teams_page_four:
  "clean_teams teams_page_four
   = Inr \<lparr>columns = [''team_name'', ''revenue'', ''tournaments_played''],
          rows = [[VStr ''TeamA'', VInt 500, VInt 10], [VStr ''TeamB'', VInt 300, VInt 4]]\<rparr>"
proof -
  have r: "currency_int [Text ''$500'', Text ''$500'', Text ''$300''] = Inr [VInt 500, VInt 500, VInt 300]"
    using currency_columns [of "[[''500''], [''500''], [''300'']]"]
    by (simp add: money_text_def money_value_def digit_groups_def is_digit_def nat_of_digits_def
        digit_val_def max_exact_def)
  have h: "list_all count_entry [Inl ''10'', Inl ''10'', Inl ''4'']"
    by (simp add: count_entry_def is_digit_def nat_of_digits_def digit_val_def max_exact_def)
  have c: "count_int [Text ''10 Tournaments'', Text ''10 Tournaments'', Text ''4 Tournaments'']
           = Inr [VInt 10, VInt 10, VInt 4]"
    using count_int_entries [OF h]
    by (simp add: count_cell_def count_expected_def nat_of_digits_def digit_val_def)
  show ?thesis
    by (simp add: clean_teams_def records_teams_def teams_page_four_def column_def r c rows_of_columns_def
        drop_duplicates_def)
qed

lemma main_teams_page_four:
  "fst (main (single_page teams_first_url teams_page_four) fresh) = Inr ()
   \<and> rows_in (snd (main (single_page teams_first_url teams_page_four) fresh)) ''teams''
     = Some [[VStr ''TeamA'', VInt 500, VInt 10], [VStr ''TeamB'', VInt 300, VInt 4]]
   \<and> Inserted 2 ''teams'' \<in> set (out (snd (main (single_page teams_first_url teams_page_four) fresh)))"
  by (simp add: main_def single_page_elsewhere scrape_countries_no_page scrape_players_no_page
      scrape_tournaments_no_page scrape_teams_def single_page_teams clean_teams_page_four pr_def
      init_database_def fresh_def tables_def create_table_if_not_exists_def
      insert_into_mysql_def df_empty_def select_columns_def insert_rows_def row_fits_def
      place_row_def teams_table_def in_int32_def rows_in_def lookup_table_def)


lemma tags_append: "tags (xs @ ys) = tags xs @ tags ys"
  by (induction xs) (simp_all split: option.splits)

lemma tags_fetch_errors: "tags (map FetchError us) = []"
  by (induction us) simp_all

lemma seqs_Cons_if:
  "seqs (p # ps) w = (if fst (p w) = Inr () then seqs ps (snd (p w)) else p w)"
  by (cases "p w") (auto split: sum.splits)

text \<open>The loader prints one status line exactly when it returns.\<close>

lemma insert_into_mysql_tags:
  assumes "dataset_of_table tbl = Some d"
  shows "tags (out (snd (insert_into_mysql df tbl cols w)))
         = tags (out w) @ (if fst (insert_into_mysql df tbl cols w) = Inr () then [Status d] else [])"
  using assms
  by (auto simp: insert_into_mysql_def pr_def tags_append Let_def split: option.splits)

lemma fetch_html_table_world:
  "snd (fetch_html_table web u w)
   = w\<lparr>out := out w @ (if web u = Raises then [FetchError u] else [])\<rparr>"
  by (simp add: fetch_html_table_def pr_def split: page.splits list.splits)

lemma fetch_tournament_pages_fetched:
  "fst (fetch_tournament_pages web urls w) = not_none (map (fetched web) urls)"
  by (induction urls arbitrary: w)
     (simp_all add: fetched_def split_beta split: page.splits list.splits)

lemma fetch_tournament_pages_world:
  "\<exists>ms. snd (fetch_tournament_pages web urls w) = w\<lparr>out := out w @ ms\<rparr> \<and> tags ms = []"
proof (induction urls arbitrary: w)
  case Nil
  have "w = w\<lparr>out := out w @ []\<rparr>" by simp
  then show ?case by (metis fetch_tournament_pages.simps(1) snd_conv tags.simps(1))
next
  case (Cons u us)
  show ?case
  proof (cases "web u")
    case Raises
    obtain ms where "snd (fetch_tournament_pages web us (pr (FetchError u) w))
        = (pr (FetchError u) w)\<lparr>out := out (pr (FetchError u) w) @ ms\<rparr>" and "tags ms = []"
      using Cons [of "pr (FetchError u) w"] by blast
    then have "snd (fetch_tournament_pages web (u # us) w) = w\<lparr>out := out w @ (FetchError u # ms)\<rparr>
               \<and> tags (FetchError u # ms) = []"
      using Raises by (simp add: pr_def)
    then show ?thesis by blast
  next
    case (Tables ts)
    show ?thesis
    proof (cases ts)
      case Nil
      obtain ms where "snd (fetch_tournament_pages web us (pr (NoTableAt u) w))
          = (pr (NoTableAt u) w)\<lparr>out := out (pr (NoTableAt u) w) @ ms\<rparr>" and "tags ms = []"
        using Cons [of "pr (NoTableAt u) w"] by blast
      then have "snd (fetch_tournament_pages web (u # us) w) = w\<lparr>out := out w @ (NoTableAt u # ms)\<rparr>
                 \<and> tags (NoTableAt u # ms) = []"
        using Tables Nil by (simp add: pr_def)
      then show ?thesis by blast
    next
      case (Cons t ts')
      then show ?thesis
        using Tables Cons.IH [of w] by (simp add: split_beta)
    qed
  qed
qed

lemma fetch_html_table_eq:
  "fetch_html_table web u w
   = (fetched web u, w\<lparr>out := out w @ (if web u = Raises then [FetchError u] else [])\<rparr>)"
  using fetch_html_table_fetched [of web u w] fetch_html_table_world [of web u w]
  by (simp add: prod_eq_iff)

lemma fetch_multiple_tables_eq:
  "fetch_multiple_tables web urls w
   = (fst (fetch_multiple_tables web urls w),
      w\<lparr>out := out w @ map FetchError (filter (\<lambda>u. web u = Raises) urls)\<rparr>)"
  using fetch_multiple_tables_world [of web urls w] by (simp add: prod_eq_iff)

lemma fetch_multiple_tables_aggregated:
  "fst (fetch_multiple_tables web urls w)
   = (case not_none (map (fetched web) urls) of
        [] \<Rightarrow> Inr None
      | f # fs \<Rightarrow> (case pd_concat (f # fs) of Inl e \<Rightarrow> Inl e | Inr df \<Rightarrow> Inr (Some df)))"
  using fetch_each_fetched [of web urls w]
  by (simp add: fetch_multiple_tables_def split_beta Let_def split: list.splits sum.splits)

lemma aggregated_Some:
  "aggregated web urls = Some df \<Longrightarrow> fst (fetch_multiple_tables web urls w) = Inr (Some df)"
  by (auto simp: aggregated_def fetch_multiple_tables_aggregated split: list.splits sum.splits)

lemma scrape_countries_tags:
  "tags (out (snd (scrape_countries web w)))
   = tags (out w) @ (if fst (scrape_countries web w) = Inr () then [Header Countries, Status Countries]
                     else [Header Countries])"
  using insert_into_mysql_tags [of "''countries''" Countries]
  by (auto simp: scrape_countries_def fetch_html_table_eq pr_def tags_append dataset_of_table_def
      split: option.splits sum.splits)

lemma scrape_players_tags:
  "tags (out (snd (scrape_players web w)))
   = tags (out w) @ (if fst (scrape_players web w) = Inr () then [Header Players, Status Players]
                     else [Header Players])"
proof -
  define r where "r = fst (fetch_multiple_tables web players_urls (pr ScrapingPlayers w))"
  have e: "fetch_multiple_tables web players_urls (pr ScrapingPlayers w)
           = (r, (pr ScrapingPlayers w)\<lparr>out := out (pr ScrapingPlayers w)
                @ map FetchError (filter (\<lambda>u. web u = Raises) players_urls)\<rparr>)"
    unfolding r_def by (rule fetch_multiple_tables_eq)
  show ?thesis
    unfolding scrape_players_def e
    using insert_into_mysql_tags [of "''players''" Players]
    by (auto simp: pr_def tags_append tags_fetch_errors dataset_of_table_def Let_def
        split: option.splits sum.splits)
qed

lemma scrape_teams_tags:
  "tags (out (snd (scrape_teams web w)))
   = tags (out w) @ (if fst (scrape_teams web w) = Inr () then [Header Teams, Status Teams]
                     else [Header Teams])"
proof -
  define r where "r = fst (fetch_multiple_tables web teams_urls (pr ScrapingTeams w))"
  have e: "fetch_multiple_tables web teams_urls (pr ScrapingTeams w)
           = (r, (pr ScrapingTeams w)\<lparr>out := out (pr ScrapingTeams w)
                @ map FetchError (filter (\<lambda>u. web u = Raises) teams_urls)\<rparr>)"
    unfolding r_def by (rule fetch_multiple_tables_eq)
  show ?thesis
    unfolding scrape_teams_def e
    using insert_into_mysql_tags [of "''teams''" Teams]
    by (auto simp: pr_def tags_append tags_fetch_errors dataset_of_table_def Let_def
        split: option.splits sum.splits)
qed

lemma scrape_tournaments_tags:
  "tags (out (snd (scrape_tournaments web w)))
   = tags (out w) @ (if fst (scrape_tournaments web w) = Inr ()
                     then [Header Tournaments, Status Tournaments] else [Header Tournaments])"
proof -
  define fs where "fs = fst (fetch_tournament_pages web tournaments_urls (pr ScrapingTournaments w))"
  obtain ms where m: "snd (fetch_tournament_pages web tournaments_urls (pr ScrapingTournaments w))
      = (pr ScrapingTournaments w)\<lparr>out := out (pr ScrapingTournaments w) @ ms\<rparr>" and t: "tags ms = []"
    using fetch_tournament_pages_world by blast
  have e: "fetch_tournament_pages web tournaments_urls (pr ScrapingTournaments w)
           = (fs, (pr ScrapingTournaments w)\<lparr>out := out (pr ScrapingTournaments w) @ ms\<rparr>)"
    unfolding fs_def using m by (simp add: prod_eq_iff)
  show ?thesis
    unfolding scrape_tournaments_def e
    using insert_into_mysql_tags [of "''tournaments''" Tournaments] t
    by (auto simp: pr_def tags_append dataset_of_table_def Let_def
        split: option.splits sum.splits list.splits)
qed

lemma scrape_tags:
  "tags (out (snd (scrape d web w)))
   = tags (out w) @ (if fst (scrape d web w) = Inr () then [Header d, Status d] else [Header d])"
  by (cases d)
     (simp_all only: scrape.simps scrape_countries_tags scrape_players_tags
        scrape_tournaments_tags scrape_teams_tags)

lemma seqs_append:
  "seqs (ps @ qs) w = (if fst (seqs ps w) = Inr () then seqs qs (snd (seqs ps w)) else seqs ps w)"
proof (induction ps arbitrary: w)
  case Nil
  show ?case by simp
next
  case (Cons p ps)
  show ?case
    by (cases "p w") (auto simp: Cons split: sum.splits)
qed

lemma seqs_scrapes_tags:
  "\<exists>Z. tags (out (snd (seqs (map (\<lambda>d. scrape d web) ds) w))) = tags (out w) @ Z
       \<and> prefix Z (report ds)
       \<and> (fst (seqs (map (\<lambda>d. scrape d web) ds) w) = Inr () \<longrightarrow> Z = report ds)"
proof (induction ds arbitrary: w)
  case Nil
  show ?case by (simp add: report_def)
next
  case (Cons d ds)
  show ?case
  proof (cases "fst (scrape d web w) = Inr ()")
    case True
    obtain Z where z: "tags (out (snd (seqs (map (\<lambda>d. scrape d web) ds) (snd (scrape d web w)))))
          = tags (out (snd (scrape d web w))) @ Z"
        "prefix Z (report ds)"
        "fst (seqs (map (\<lambda>d. scrape d web) ds) (snd (scrape d web w))) = Inr () \<longrightarrow> Z = report ds"
      using Cons [of "snd (scrape d web w)"] by blast
    have "tags (out (snd (seqs (map (\<lambda>d. scrape d web) (d # ds)) w)))
          = tags (out w) @ ([Header d, Status d] @ Z)"
      using True z(1) scrape_tags [of d web w] by (simp add: seqs_Cons_if del: seqs.simps(2))
    moreover have "prefix ([Header d, Status d] @ Z) (report (d # ds))"
      using z(2) by (simp add: report_def)
    moreover have "fst (seqs (map (\<lambda>d. scrape d web) (d # ds)) w) = Inr ()
                   \<longrightarrow> [Header d, Status d] @ Z = report (d # ds)"
      using True z(3) by (simp add: seqs_Cons_if report_def del: seqs.simps(2))
    ultimately show ?thesis by blast
  next
    case False
    have "tags (out (snd (seqs (map (\<lambda>d. scrape d web) (d # ds)) w))) = tags (out w) @ [Header d]"
      using False scrape_tags [of d web w] by (simp add: seqs_Cons_if del: seqs.simps(2))
    moreover have "prefix [Header d] (report (d # ds))"
      by (simp add: report_def)
    moreover have "fst (seqs (map (\<lambda>d. scrape d web) (d # ds)) w) \<noteq> Inr ()"
      using False by (simp add: seqs_Cons_if del: seqs.simps(2))
    ultimately show ?thesis by blast
  qed
qed

lemma main_split:
  "main web = seqs ([\<lambda>w. (Inr (), pr Starting w), init_database]
                    @ map (\<lambda>d. scrape d web) datasets @ [\<lambda>w. (Inr (), pr AllDone w)])"
  by (simp add: main_def datasets_def)

lemma init_database_out: "out (snd (init_database w)) = out w"
  by (simp add: init_database_def Let_def)

lemma start_init_tags:
  "tags (out (snd (seqs [\<lambda>w. (Inr (), pr Starting w), init_database] w))) = tags (out w)"
  by (simp add: seqs_Cons_if init_database_out pr_def tags_append del: seqs.simps(2))

lemma main_tags:
  "\<exists>Z. tags (out (snd (main web w))) = tags (out w) @ Z
       \<and> prefix Z full_report
       \<and> (fst (main web w) = Inr () \<longrightarrow> Z = full_report)"
proof -
  define pre where "pre = [\<lambda>w. (Inr (), pr Starting w), init_database]"
  define fin where "fin = [\<lambda>w :: world. (Inr () :: error + unit, pr AllDone w)]"
  define w1 where "w1 = snd (seqs pre w)"
  have m: "main web = seqs (pre @ (map (\<lambda>d. scrape d web) datasets @ fin))"
    by (simp add: main_split pre_def fin_def)
  have t1: "tags (out w1) = tags (out w)"
    unfolding w1_def pre_def by (rule start_init_tags)
  show ?thesis
  proof (cases "fst (seqs pre w) = Inr ()")
    case False
    then have "main web w = seqs pre w"
      by (simp add: m seqs_append)
    then have "tags (out (snd (main web w))) = tags (out w) @ []" and "fst (main web w) \<noteq> Inr ()"
      using False t1 by (simp_all add: w1_def)
    then show ?thesis by (metis Nil_prefix)
  next
    case True
    obtain Z where z: "tags (out (snd (seqs (map (\<lambda>d. scrape d web) datasets) w1))) = tags (out w1) @ Z"
        "prefix Z (report datasets)"
        "fst (seqs (map (\<lambda>d. scrape d web) datasets) w1) = Inr () \<longrightarrow> Z = report datasets"
      using seqs_scrapes_tags [of web datasets w1] by blast
    have r: "report datasets = full_report"
      by (simp add: report_def full_report_def)
    have s: "main web w = seqs (map (\<lambda>d. scrape d web) datasets @ fin) w1"
      using True by (simp add: m seqs_append w1_def)
    show ?thesis
    proof (cases "fst (seqs (map (\<lambda>d. scrape d web) datasets) w1) = Inr ()")
      case True
      then have "main web w = seqs fin (snd (seqs (map (\<lambda>d. scrape d web) datasets) w1))"
        by (simp add: s seqs_append)
      then have "tags (out (snd (main web w))) = tags (out w) @ Z"
        using z(1) t1 by (simp add: fin_def pr_def tags_append)
      then show ?thesis using z True r by auto
    next
      case False
      then have "main web w = seqs (map (\<lambda>d. scrape d web) datasets) w1"
        by (simp add: s seqs_append)
      then have "tags (out (snd (main web w))) = tags (out w) @ Z" and "fst (main web w) \<noteq> Inr ()"
        using z(1) t1 False by simp_all
      then show ?thesis using z r by auto
    qed
  qed
qed


lemma mismatch_countries:
  assumes "fetched web countries_url = Some df" "length (columns df) \<noteq> 7"
  shows "fst (scrape_countries web w) = Inl ValueError
       \<and> database (snd (scrape_countries web w)) = database w"
  using assms by (simp add: scrape_countries_def fetch_html_table_eq clean_countries_def records_countries_def pr_def)

lemma mismatch_players:
  assumes "aggregated web players_urls = Some df"
      and "length (columns (if stray_label \<in> set (columns df) then drop_label stray_label df else df)) \<noteq> 6"
  shows "fst (scrape_players web w) = Inl ValueError
       \<and> database (snd (scrape_players web w)) = database w"
proof -
  have e: "fetch_multiple_tables web players_urls (pr ScrapingPlayers w)
           = (Inr (Some df), (pr ScrapingPlayers w)\<lparr>out := out (pr ScrapingPlayers w)
                @ map FetchError (filter (\<lambda>u. web u = Raises) players_urls)\<rparr>)"
    using fetch_multiple_tables_eq [of web players_urls "pr ScrapingPlayers w"]
      aggregated_Some [OF assms(1), of "pr ScrapingPlayers w"] by simp
  have c: "clean_players df = Inl ValueError"
    using assms(2) by (simp add: clean_players_def records_players_def Let_def)
  show ?thesis
    unfolding scrape_players_def e by (simp add: c pr_def)
qed

lemma mismatch_teams:
  assumes "aggregated web teams_urls = Some df" "length (columns df) \<noteq> 4"
  shows "fst (scrape_teams web w) = Inl ValueError
       \<and> database (snd (scrape_teams web w)) = database w"
proof -
  have e: "fetch_multiple_tables web teams_urls (pr ScrapingTeams w)
           = (Inr (Some df), (pr ScrapingTeams w)\<lparr>out := out (pr ScrapingTeams w)
                @ map FetchError (filter (\<lambda>u. web u = Raises) teams_urls)\<rparr>)"
    using fetch_multiple_tables_eq [of web teams_urls "pr ScrapingTeams w"]
      aggregated_Some [OF assms(1), of "pr ScrapingTeams w"] by simp
  have c: "clean_teams df = Inl ValueError"
    using assms(2) by (simp add: clean_teams_def records_teams_def)
  show ?thesis
    unfolding scrape_teams_def e by (simp add: c pr_def)
qed

lemma mismatch_tournaments:
  assumes "aggregated web tournaments_urls = Some df"
      and "length (columns (first_columns 4 df)) \<noteq> 4"
  shows "fst (scrape_tournaments web w) = Inl ValueError
       \<and> database (snd (scrape_tournaments web w)) = database w"
proof -
  obtain ms where m: "snd (fetch_tournament_pages web tournaments_urls (pr ScrapingTournaments w))
      = (pr ScrapingTournaments w)\<lparr>out := out (pr ScrapingTournaments w) @ ms\<rparr>"
    using fetch_tournament_pages_world by blast
  obtain f fs where n: "not_none (map (fetched web) tournaments_urls) = f # fs"
      and p: "pd_concat (f # fs) = Inr df"
    using assms(1) by (auto simp: aggregated_def split: list.splits sum.splits)
  have e: "fetch_tournament_pages web tournaments_urls (pr ScrapingTournaments w)
           = (f # fs, (pr ScrapingTournaments w)\<lparr>out := out (pr ScrapingTournaments w) @ ms\<rparr>)"
    using m n fetch_tournament_pages_fetched [of web tournaments_urls "pr ScrapingTournaments w"]
    by (simp add: prod_eq_iff)
  have c: "clean_tournaments df = Inl ValueError"
    using assms(2) by (simp add: clean_tournaments_def records_tournaments_def Let_def)
  show ?thesis
    unfolding scrape_tournaments_def e by (simp add: p c pr_def)
qed

lemma mismatch_scrape:
  assumes "raw_table d web = Some df" "length (columns df) \<noteq> expected_columns d"
  shows "fst (scrape d web w) = Inl ValueError \<and> database (snd (scrape d web w)) = database w"
proof (cases d)
  case Countries
  then show ?thesis using assms mismatch_countries [of web df w] by simp
next
  case Players
  then obtain df0 where "aggregated web players_urls = Some df0"
      and "df = (if stray_label \<in> set (columns df0) then drop_label stray_label df0 else df0)"
    using assms(1) by auto
  then show ?thesis using Players assms(2) mismatch_players [of web df0 w] by simp
next
  case Tournaments
  then obtain df0 where "aggregated web tournaments_urls = Some df0" and "df = first_columns 4 df0"
    using assms(1) by auto
  then show ?thesis using Tournaments assms(2) mismatch_tournaments [of web df0 w] by simp
next
  case Teams
  then show ?thesis using assms mismatch_teams [of web df w] by simp
qed

lemma side_line_fetch_errors: "list_all side_line (map FetchError us)"
  by (induction us) simp_all

lemma fetch_tournament_pages_lines:
  "\<exists>ms. snd (fetch_tournament_pages web urls w) = w\<lparr>out := out w @ ms\<rparr> \<and> list_all side_line ms"
proof (induction urls arbitrary: w)
  case Nil
  have "snd (fetch_tournament_pages web [] w) = w\<lparr>out := out w @ []\<rparr> \<and> list_all side_line []"
    by simp
  then show ?case by blast
next
  case (Cons u us)
  show ?case
  proof (cases "web u")
    case Raises
    obtain ms where "snd (fetch_tournament_pages web us (pr (FetchError u) w))
        = (pr (FetchError u) w)\<lparr>out := out (pr (FetchError u) w) @ ms\<rparr>" and "list_all side_line ms"
      using Cons [of "pr (FetchError u) w"] by blast
    then have "snd (fetch_tournament_pages web (u # us) w) = w\<lparr>out := out w @ (FetchError u # ms)\<rparr>
               \<and> list_all side_line (FetchError u # ms)"
      using Raises by (simp add: pr_def)
    then show ?thesis by blast
  next
    case (Tables ts)
    show ?thesis
    proof (cases ts)
      case Nil
      obtain ms where "snd (fetch_tournament_pages web us (pr (NoTableAt u) w))
          = (pr (NoTableAt u) w)\<lparr>out := out (pr (NoTableAt u) w) @ ms\<rparr>" and "list_all side_line ms"
        using Cons [of "pr (NoTableAt u) w"] by blast
      then have "snd (fetch_tournament_pages web (u # us) w) = w\<lparr>out := out w @ (NoTableAt u # ms)\<rparr>
                 \<and> list_all side_line (NoTableAt u # ms)"
        using Tables Nil by (simp add: pr_def)
      then show ?thesis by blast
    next
      case (Cons t ts')
      then show ?thesis
        using Tables Cons.IH [of w] by (simp add: split_beta)
    qed
  qed
qed

lemma mismatch_countries_lines:
  assumes "fetched web countries_url = Some df" "length (columns df) \<noteq> 7"
  shows "out (snd (scrape_countries web w)) = out w @ [ScrapingCountries]"
proof -
  have "web countries_url \<noteq> Raises"
    using assms(1) by (auto simp: fetched_def)
  then show ?thesis
    using assms
    by (simp add: scrape_countries_def fetch_html_table_eq clean_countries_def
        records_countries_def pr_def)
qed

lemma mismatch_players_lines:
  assumes "aggregated web players_urls = Some df"
      and "length (columns (if stray_label \<in> set (columns df) then drop_label stray_label df else df)) \<noteq> 6"
  shows "out (snd (scrape_players web w))
         = out w @ ScrapingPlayers # map FetchError (filter (\<lambda>u. web u = Raises) players_urls)
             @ [AvailableColumns ''players'' (columns df)]"
proof -
  have e: "fetch_multiple_tables web players_urls (pr ScrapingPlayers w)
           = (Inr (Some df), (pr ScrapingPlayers w)\<lparr>out := out (pr ScrapingPlayers w)
                @ map FetchError (filter (\<lambda>u. web u = Raises) players_urls)\<rparr>)"
    using fetch_multiple_tables_eq [of web players_urls "pr ScrapingPlayers w"]
      aggregated_Some [OF assms(1), of "pr ScrapingPlayers w"] by simp
  have c: "clean_players df = Inl ValueError"
    using assms(2) by (simp add: clean_players_def records_players_def Let_def)
  show ?thesis
    unfolding scrape_players_def e by (simp add: c pr_def)
qed

lemma mismatch_teams_lines:
  assumes "aggregated web teams_urls = Some df" "length (columns df) \<noteq> 4"
  shows "out (snd (scrape_teams web w))
         = out w @ ScrapingTeams # map FetchError (filter (\<lambda>u. web u = Raises) teams_urls)
             @ [AvailableColumns ''teams'' (columns df)]"
proof -
  have e: "fetch_multiple_tables web teams_urls (pr ScrapingTeams w)
           = (Inr (Some df), (pr ScrapingTeams w)\<lparr>out := out (pr ScrapingTeams w)
                @ map FetchError (filter (\<lambda>u. web u = Raises) teams_urls)\<rparr>)"
    using fetch_multiple_tables_eq [of web teams_urls "pr ScrapingTeams w"]
      aggregated_Some [OF assms(1), of "pr ScrapingTeams w"] by simp
  have c: "clean_teams df = Inl ValueError"
    using assms(2) by (simp add: clean_teams_def records_teams_def)
  show ?thesis
    unfolding scrape_teams_def e by (simp add: c pr_def)
qed

lemma mismatch_tournaments_lines:
  assumes "aggregated web tournaments_urls = Some df"
      and "length (columns (first_columns 4 df)) \<noteq> 4"
  shows "\<exists>ms. out (snd (scrape_tournaments web w)) = out w @ ScrapingTournaments # ms
              \<and> list_all side_line ms"
proof -
  obtain ms where m: "snd (fetch_tournament_pages web tournaments_urls (pr ScrapingTournaments w))
      = (pr ScrapingTournaments w)\<lparr>out := out (pr ScrapingTournaments w) @ ms\<rparr>"
    and sl: "list_all side_line ms"
    using fetch_tournament_pages_lines by blast
  obtain f fs where n: "not_none (map (fetched web) tournaments_urls) = f # fs"
      and p: "pd_concat (f # fs) = Inr df"
    using assms(1) by (auto simp: aggregated_def split: list.splits sum.splits)
  have e: "fetch_tournament_pages web tournaments_urls (pr ScrapingTournaments w)
           = (f # fs, (pr ScrapingTournaments w)\<lparr>out := out (pr ScrapingTournaments w) @ ms\<rparr>)"
    using m n fetch_tournament_pages_fetched [of web tournaments_urls "pr ScrapingTournaments w"]
    by (simp add: prod_eq_iff)
  have c: "clean_tournaments df = Inl ValueError"
    using assms(2) by (simp add: clean_tournaments_def records_tournaments_def Let_def)
  have "out (snd (scrape_tournaments web w)) = out w @ ScrapingTournaments # ms"
    unfolding scrape_tournaments_def e by (simp add: p c pr_def)
  with sl show ?thesis by blast
qed

lemma mismatch_lines:
  assumes "raw_table d web = Some df" "length (columns df) \<noteq> expected_columns d"
  shows "\<exists>m ms. out (snd (scrape d web w)) = out w @ m # ms \<and> tag_of m = Some (Header d)
               \<and> list_all side_line ms"
proof (cases d)
  case Countries
  then have "out (snd (scrape d web w)) = out w @ ScrapingCountries # []"
    using assms mismatch_countries_lines [of web df w] by simp
  moreover have "tag_of ScrapingCountries = Some (Header d)" "list_all side_line []"
    using Countries by simp_all
  ultimately show ?thesis by blast
next
  case Players
  then obtain df0 where a: "aggregated web players_urls = Some df0"
      and "df = (if stray_label \<in> set (columns df0) then drop_label stray_label df0 else df0)"
    using assms(1) by auto
  then have "out (snd (scrape d web w))
      = out w @ ScrapingPlayers # (map FetchError (filter (\<lambda>u. web u = Raises) players_urls)
             @ [AvailableColumns ''players'' (columns df0)])"
    using Players assms(2) mismatch_players_lines [of web df0 w] by simp
  moreover have "tag_of ScrapingPlayers = Some (Header d)"
    "list_all side_line (map FetchError (filter (\<lambda>u. web u = Raises) players_urls)
             @ [AvailableColumns ''players'' (columns df0)])"
    using Players by (simp_all add: side_line_fetch_errors)
  ultimately show ?thesis by blast
next
  case Tournaments
  then obtain df0 where "aggregated web tournaments_urls = Some df0" and "df = first_columns 4 df0"
    using assms(1) by auto
  then obtain ms where "out (snd (scrape d web w)) = out w @ ScrapingTournaments # ms"
      "list_all side_line ms"
    using Tournaments assms(2) mismatch_tournaments_lines [of web df0 w] by auto
  moreover have "tag_of ScrapingTournaments = Some (Header d)"
    using Tournaments by simp
  ultimately show ?thesis by blast
next
  case Teams
  then have "out (snd (scrape d web w))
      = out w @ ScrapingTeams # (map FetchError (filter (\<lambda>u. web u = Raises) teams_urls)
             @ [AvailableColumns ''teams'' (columns df)])"
    using assms mismatch_teams_lines [of web df w] by simp
  moreover have "tag_of ScrapingTeams = Some (Header d)"
    "list_all side_line (map FetchError (filter (\<lambda>u. web u = Raises) teams_urls)
             @ [AvailableColumns ''teams'' (columns df)])"
    using Teams by (simp_all add: side_line_fetch_errors)
  ultimately show ?thesis by blast
qed

lemma datasets_split:
  "datasets = takeWhile (\<lambda>x. x \<noteq> d) datasets @ d # tl (dropWhile (\<lambda>x. x \<noteq> d) datasets)"
  by (cases d) (simp_all add: datasets_def)

lemma seqs_scrapes_done:
  assumes "fst (seqs (map (\<lambda>d. scrape d web) ds) w) = Inr ()"
  shows "tags (out (snd (seqs (map (\<lambda>d. scrape d web) ds) w))) = tags (out w) @ report ds"
  using seqs_scrapes_tags [of web ds w] assms by auto


subsection \<open>The end-to-end example\<close>

text \<open>
  Claim C7, as stated: the page holds rows of three cells. \<^verbatim>\<open>scrape_teams\<close> names four
  columns, the first of them the rank, so on this page \<^verbatim>\<open>df.columns = [...]\<close> raises
  ValueError, the run ends there, and the teams table stays empty.
\<close>

theorem end_to_end_three_columns_counterexample:
  "fst (main (single_page teams_first_url teams_page_three) fresh) = Inl ValueError
   \<and> rows_in (snd (main (single_page teams_first_url teams_page_three) fresh)) ''teams'' = Some []"
  by (simp add: main_def single_page_elsewhere scrape_countries_no_page scrape_players_no_page
      scrape_tournaments_no_page scrape_teams_def single_page_teams clean_teams_def records_teams_def teams_page_three_def pr_def
      init_database_def fresh_def tables_def create_table_if_not_exists_def
      teams_table_def rows_in_def lookup_table_def)

text \<open>
  Claim C7, amended: on a new server, with a web in which only the first teams address
  serves a page, whose rows are those of the example, each with its rank cell in front,
  \<^verbatim>\<open>main\<close> returns normally, the teams table then holds exactly the two rows
  \<^verbatim>\<open>(TeamA, 500, 10)\<close> and \<^verbatim>\<open>(TeamB, 300, 4)\<close>, and the line that reports two rows
  inserted into teams is printed.
\<close>

theorem end_to_end_teams:
  "fst (main (single_page teams_first_url teams_page_four) fresh) = Inr ()
   \<and> rows_in (snd (main (single_page teams_first_url teams_page_four) fresh)) ''teams''
     = Some [[VStr ''TeamA'', VInt 500, VInt 10], [VStr ''TeamB'', VInt 300, VInt 4]]
   \<and> Inserted 2 ''teams'' \<in> set (out (snd (main (single_page teams_first_url teams_page_four) fresh)))"
  by (rule main_teams_page_four)

subsection \<open>A table with the wrong number of columns\<close>

text \<open>
  Claim C1, as stated: a dataset whose table has the wrong number of columns is skipped
  and the others proceed. Here the countries page has two columns and the teams page is
  in order: the run ends in countries with ValueError, no other dataset is started, and
  the teams table stays empty.
\<close>

theorem schema_mismatch_counterexample:
  "fst (main countries_short_web fresh) = Inl ValueError
   \<and> run_tags countries_short_web fresh = [Header Countries]
   \<and> rows_in (snd (main countries_short_web fresh)) ''teams'' = Some []"
proof -
  have "main countries_short_web fresh
        = (Inl ValueError, \<lparr>server_up = True,
             database = Some [(''countries'', countries_table), (''players'', players_table),
                              (''tournaments'', tournaments_table), (''teams'', teams_table)],
             out = [Starting, ScrapingCountries], connections = 1\<rparr>)"
    by (simp add: main_def init_database_def fresh_def pr_def tables_def
        create_table_if_not_exists_def scrape_countries_def fetch_html_table_def
        countries_short_web_def clean_countries_def records_countries_def short_page_def)
  then show ?thesis
    by (simp add: run_tags_def fresh_def rows_in_def lookup_table_def teams_table_def)
qed

text \<open>
  Claim C1, amended: when the table on which a dataset sets its column names has a
  number of columns other than the number of names (seven for countries, six for players
  after the stray column is dropped, four for teams, four for tournaments after the cut
  to four columns, so fewer than four before it), and the run has come to that dataset
  without an exception, \<^verbatim>\<open>main\<close> ends with ValueError. The datasets before it have
  printed their opening line and their status line. The dataset itself has printed its
  opening line, and after it nothing but the lines of pages that could not be fetched or
  held no table and, in players and teams, the line of the labels found: it has no
  status line. The database is as it was when the dataset began, and no later dataset
  has printed a line.
\<close>

theorem schema_mismatch:
  assumes "raw_table d web = Some df"
      and "length (columns df) \<noteq> expected_columns d"
      and "fst (run_before d web w) = Inr ()"
  shows "fst (main web w) = Inl ValueError
       \<and> run_tags web w = report (takeWhile (\<lambda>x. x \<noteq> d) datasets) @ [Header d]
       \<and> database (snd (main web w)) = database (snd (run_before d web w))
       \<and> (\<exists>m ms. out (snd (main web w)) = out (snd (run_before d web w)) @ m # ms
                  \<and> tag_of m = Some (Header d) \<and> list_all side_line ms)"
proof -
  define pre where "pre = [\<lambda>w. (Inr (), pr Starting w), init_database]"
  define tw where "tw = takeWhile (\<lambda>x. x \<noteq> d) datasets"
  define rest where "rest = map (\<lambda>x. scrape x web) (tl (dropWhile (\<lambda>x. x \<noteq> d) datasets))
                            @ [\<lambda>w :: world. (Inr () :: error + unit, pr AllDone w)]"
  define w1 where "w1 = snd (run_before d web w)"
  have rb: "run_before d web = seqs (pre @ map (\<lambda>x. scrape x web) tw)"
    by (simp add: run_before_def pre_def tw_def)
  have "main web = seqs (pre @ map (\<lambda>x. scrape x web) datasets
                         @ [\<lambda>w. (Inr (), pr AllDone w)])"
    by (simp add: main_split pre_def)
  also have "map (\<lambda>x. scrape x web) datasets
             = map (\<lambda>x. scrape x web) tw @ scrape d web # map (\<lambda>x. scrape x web) (tl (dropWhile (\<lambda>x. x \<noteq> d) datasets))"
    by (subst datasets_split [of d]) (simp add: tw_def)
  finally have m: "main web = seqs ((pre @ map (\<lambda>x. scrape x web) tw) @ (scrape d web # rest))"
    by (simp add: rest_def)
  have a3: "fst (seqs (pre @ map (\<lambda>x. scrape x web) tw) w) = Inr ()"
    using assms(3) by (simp only: rb)
  have s: "main web w = seqs (scrape d web # rest) w1"
    unfolding m w1_def rb
    by (subst seqs_append) (simp only: a3 refl if_True)
  note r = mismatch_scrape [OF assms(1,2), of w1]
  have eq: "main web w = scrape d web w1"
    using r by (simp add: s seqs_Cons_if del: seqs.simps(2))
  have p: "fst (seqs pre w) = Inr ()"
    using assms(3) by (auto simp: rb seqs_append split: if_splits)
  then have b: "run_before d web w = seqs (map (\<lambda>x. scrape x web) tw) (snd (seqs pre w))"
    by (simp add: rb seqs_append)
  then have "fst (seqs (map (\<lambda>x. scrape x web) tw) (snd (seqs pre w))) = Inr ()"
    using assms(3) by simp
  then have "tags (out w1) = tags (out (snd (seqs pre w))) @ report tw"
    unfolding w1_def b by (rule seqs_scrapes_done)
  then have t1: "tags (out w1) = tags (out w) @ report tw"
    using start_init_tags [of w] by (simp add: pre_def)
  have "tags (out (snd (main web w))) = tags (out w) @ report tw @ [Header d]"
    using scrape_tags [of d web w1] r t1 by (simp add: eq)
  then have "run_tags web w = report tw @ [Header d]"
    by (simp add: run_tags_def)
  moreover have "\<exists>m ms. out (snd (main web w)) = out w1 @ m # ms
                  \<and> tag_of m = Some (Header d) \<and> list_all side_line ms"
    unfolding eq by (rule mismatch_lines [OF assms(1,2)])
  ultimately show ?thesis
    using r by (simp add: eq tw_def w1_def)
qed

theorem schema_mismatch_witness:
  "raw_table Teams (single_page teams_first_url teams_page_three) = Some teams_page_three
   \<and> length (columns teams_page_three) \<noteq> expected_columns Teams
   \<and> fst (run_before Teams (single_page teams_first_url teams_page_three) fresh) = Inr ()
   \<and> fst (main (single_page teams_first_url teams_page_three) fresh) = Inl ValueError
   \<and> run_tags (single_page teams_first_url teams_page_three) fresh
     = [Header Countries, Status Countries, Header Players, Status Players,
        Header Tournaments, Status Tournaments, Header Teams]
   \<and> out (snd (main (single_page teams_first_url teams_page_three) fresh))
     = out (snd (run_before Teams (single_page teams_first_url teams_page_three) fresh))
       @ ScrapingTeams # map FetchError (tl teams_urls)
       @ [AvailableColumns ''teams'' [''Team'', ''Earnings'', ''Tournaments'']]"
proof -
  have a: "raw_table Teams (single_page teams_first_url teams_page_three) = Some teams_page_three"
    by (simp add: aggregated_def teams_urls_def fetched_def single_page_def teams_first_url_def
        pd_concat_def)
  have b: "length (columns teams_page_three) \<noteq> expected_columns Teams"
    by (simp add: teams_page_three_def)
  have c: "fst (run_before Teams (single_page teams_first_url teams_page_three) fresh) = Inr ()"
    by (simp add: run_before_def datasets_def single_page_elsewhere scrape_countries_no_page
        scrape_players_no_page scrape_tournaments_no_page init_database_def fresh_def pr_def)
  have d: "out (snd (main (single_page teams_first_url teams_page_three) fresh))
     = out (snd (run_before Teams (single_page teams_first_url teams_page_three) fresh))
       @ ScrapingTeams # map FetchError (tl teams_urls)
       @ [AvailableColumns ''teams'' [''Team'', ''Earnings'', ''Tournaments'']]"
    by (simp add: main_def run_before_def datasets_def single_page_elsewhere
        scrape_countries_no_page scrape_players_no_page scrape_tournaments_no_page
        scrape_teams_def single_page_teams clean_teams_def records_teams_def
        teams_page_three_def pr_def init_database_def fresh_def)
  show ?thesis
    using schema_mismatch [OF a b c] a b c d by (simp add: report_def datasets_def)
qed

subsection \<open>The report of a run\<close>

text \<open>
  Claim C9, as stated: every dataset gets a status line. Here the first players page has
  two columns: countries prints its status line, players prints its opening line and
  raises, and neither tournaments nor teams prints anything.
\<close>

theorem run_report_counterexample:
  "fst (main (single_page players_first_url short_page) fresh) = Inl ValueError
   \<and> run_tags (single_page players_first_url short_page) fresh
     = [Header Countries, Status Countries, Header Players]"
proof -
  have c: "single_page players_first_url short_page countries_url = Raises"
    by (simp add: single_page_def players_first_url_def countries_url_def)
  have p: "clean_players short_page = Inl ValueError"
    by (simp add: clean_players_def records_players_def short_page_def stray_label_def)
  have "fst (main (single_page players_first_url short_page) fresh) = Inl ValueError
        \<and> tags (out (snd (main (single_page players_first_url short_page) fresh)))
          = [Header Countries, Status Countries, Header Players]"
    by (simp add: main_def init_database_def fresh_def pr_def scrape_countries_no_page [of "single_page players_first_url short_page", OF c]
        scrape_players_def single_page_players p tags_fetch_errors tags_append)
  then show ?thesis by (simp add: run_tags_def fresh_def)
qed

text \<open>
  Claim C9, amended: the dataset lines of a run are always an initial part of the
  sequence countries, players, tournaments, teams, each dataset with its opening line
  and then its status line; when \<^verbatim>\<open>main\<close> returns without an exception the sequence is
  complete, so every dataset has printed a status line, also when it had no rows.
\<close>

theorem run_report:
  "prefix (run_tags web w) full_report
   \<and> (fst (main web w) = Inr () \<longrightarrow> run_tags web w = full_report)
   \<and> full_report = [Header Countries, Status Countries, Header Players, Status Players,
                     Header Tournaments, Status Tournaments, Header Teams, Status Teams]"
proof -
  obtain Z where "tags (out (snd (main web w))) = tags (out w) @ Z" "prefix Z full_report"
      "fst (main web w) = Inr () \<longrightarrow> Z = full_report"
    using main_tags by blast
  moreover from this have "run_tags web w = Z" by (simp add: run_tags_def)
  ultimately show ?thesis by (simp add: full_report_def datasets_def)
qed

theorem run_report_witness:
  "fst (main (single_page teams_first_url teams_page_four) fresh) = Inr ()
   \<and> run_tags (single_page teams_first_url teams_page_four) fresh
     = [Header Countries, Status Countries, Header Players, Status Players,
        Header Tournaments, Status Tournaments, Header Teams, Status Teams]"
  using run_report [of "single_page teams_first_url teams_page_four" fresh]
    main_teams_page_four
  by simp
subsection \<open>The records of a dataset\<close>

lemma length_rows_of_columns:
  "list_all (\<lambda>c. length c = n) cols \<Longrightarrow> length (rows_of_columns n cols) = n"
  by (induction cols) (simp_all add: rows_of_columns_def)

lemma rows_of_columns_nth:
  "list_all (\<lambda>c. length c = n) cols \<Longrightarrow> i < n \<Longrightarrow>
   rows_of_columns n cols ! i = map (\<lambda>c. c ! i) cols"
proof (induction cols)
  case Nil
  then show ?case by (simp add: rows_of_columns_def)
next
  case (Cons c cs)
  then have l: "length (rows_of_columns n cs) = n" and lc: "length c = n"
    by (simp_all add: length_rows_of_columns)
  have "rows_of_columns n (c # cs) = map2 (#) c (rows_of_columns n cs)"
    by (simp add: rows_of_columns_def)
  then show ?case
    using Cons l lc by simp
qed

lemma currency_float_length: "currency_float col = Inr res \<Longrightarrow> length res = length col"
  unfolding currency_float_def by (drule mapE_length) simp

lemma currency_int_length: "currency_int col = Inr res \<Longrightarrow> length res = length col"
  by (auto simp: currency_int_def split: sum.splits dest!: mapE_length currency_float_length)

lemma percent_float_length: "percent_float col = Inr res \<Longrightarrow> length res = length col"
  unfolding percent_float_def by (rule mapE_length)

lemma digits_int_length: "digits_int col = Inr res \<Longrightarrow> length res = length col"
  unfolding digits_int_def by (rule mapE_length)

lemma astype_int_col_length:
  "astype_int_col (fillna0 (to_numeric_coerce ss)) = Inr res \<Longrightarrow> length res = length ss"
  by (auto simp: to_numeric_coerce_def Let_def split: option.splits if_splits
      dest!: mapE_length those_length)

lemma count_int_length: "count_int col = Inr res \<Longrightarrow> length res = length col"
  unfolding count_int_def by (drule astype_int_col_length) simp

lemma column_length: "length (column p df) = length (rows df)"
  by (simp add: column_def)


lemma records_teams_page_four:
  "records Teams teams_page_four
   = Inr [[VStr ''TeamA'', VInt 500, VInt 10], [VStr ''TeamA'', VInt 500, VInt 10],
          [VStr ''TeamB'', VInt 300, VInt 4]]"
proof -
  have r: "currency_int [Text ''$500'', Text ''$500'', Text ''$300''] = Inr [VInt 500, VInt 500, VInt 300]"
    using currency_columns [of "[[''500''], [''500''], [''300'']]"]
    by (simp add: money_text_def money_value_def digit_groups_def is_digit_def nat_of_digits_def
        digit_val_def max_exact_def)
  have h: "list_all count_entry [Inl ''10'', Inl ''10'', Inl ''4'']"
    by (simp add: count_entry_def is_digit_def nat_of_digits_def digit_val_def max_exact_def)
  have c: "count_int [Text ''10 Tournaments'', Text ''10 Tournaments'', Text ''4 Tournaments'']
           = Inr [VInt 10, VInt 10, VInt 4]"
    using count_int_entries [OF h]
    by (simp add: count_cell_def count_expected_def nat_of_digits_def digit_val_def)
  show ?thesis
    by (simp add: records_teams_def teams_page_four_def column_def r c rows_of_columns_def)
qed

lemma records_countries_page_one:
  "records Countries countries_page_one
   = Inr [[VStr ''United States'', VFlt 1234567, VInt 27543, VStr ''Fortnite'', VFlt 500,
           VFlt 50]]"
proof -
  have a: "currency_float [Text ''$1,234,567''] = Inr [VFlt 1234567]"
    using currency_columns [of "[[''1'', ''234'', ''567'']]"]
    by (simp add: money_text_def money_value_def digit_groups_def is_digit_def nat_of_digits_def
        digit_val_def max_exact_def)
  have b: "currency_float [Text ''$500''] = Inr [VFlt 500]"
    using currency_columns [of "[[''500'']]"]
    by (simp add: money_text_def money_value_def digit_groups_def is_digit_def nat_of_digits_def
        digit_val_def max_exact_def)
  have "py_float ''50'' = Inr (VFlt (of_nat (nat_of_digits ''50'')))"
    by (rule py_float_digits)
       (simp_all add: is_digit_def nat_of_digits_def digit_val_def max_exact_def)
  then have p: "percent_float [Text ''50%''] = Inr [VFlt 50]"
    by (simp add: percent_float_def nat_of_digits_def digit_val_def)
  have "py_literal ''27543'' = Some (IntLit (int (nat_of_digits ''27543'')))"
    by (simp add: py_literal_digits parse_number_digits is_digit_def)
  then have n: "digits_int [Text ''27,543 Players''] = Inr [VInt 27543]"
    by (simp add: digits_int_def py_int_def is_digit_def nat_of_digits_def digit_val_def
        in_int64_def int64_min_def int64_max_def)
  show ?thesis
    by (simp add: records_countries_def countries_page_one_def column_def a b p n
        rows_of_columns_def)
qed




subsection \<open>The money fields of the records\<close>

lemma records_teams_money:
  assumes "records_teams df = Inr recs" "i < length (rows df)"
      and "column 2 df ! i = Text (money_text gs)" "digit_groups gs" "money_value gs \<le> max_exact"
  shows "recs ! i ! 1 = VInt (int (money_value gs))"
proof -
  obtain revenue played where r: "currency_int (column 2 df) = Inr revenue"
    and c: "count_int (column 3 df) = Inr played"
    and recs: "recs = rows_of_columns (length (rows df))
                 [map (\<lambda>c. VStr (astype_str c)) (column 1 df), revenue, played]"
    using assms(1) by (auto simp: records_teams_def Let_def split: if_splits sum.splits)
  have "recs ! i = map (\<lambda>c. c ! i) [map (\<lambda>c. VStr (astype_str c)) (column 1 df), revenue, played]"
    unfolding recs
    by (rule rows_of_columns_nth)
       (simp_all add: column_length currency_int_length [OF r] count_int_length [OF c] assms(2))
  moreover have "revenue ! i = VInt (int (money_value gs))"
    using assms(2) by (intro currency_int_cell [OF r _ assms(3-5)]) (simp add: column_length)
  ultimately show ?thesis by simp
qed

lemma records_tournaments_money:
  assumes "records_tournaments df = Inr recs" "i < length (rows df)"
      and "column 2 (first_columns 4 df) ! i = Text (money_text gs)"
          "digit_groups gs" "money_value gs \<le> max_exact"
  shows "recs ! i ! 1 = VInt (int (money_value gs))"
proof -
  let ?df = "first_columns 4 df"
  have n: "length (rows ?df) = length (rows df)"
    by (simp add: first_columns_def)
  obtain prize where r: "currency_int (column 2 ?df) = Inr prize"
    and recs: "recs = rows_of_columns (length (rows ?df))
                 [map raw_value (column 1 ?df), prize, map raw_value (column 3 ?df)]"
    using assms(1) by (auto simp: records_tournaments_def Let_def split: if_splits sum.splits)
  have "recs ! i = map (\<lambda>c. c ! i) [map raw_value (column 1 ?df), prize, map raw_value (column 3 ?df)]"
    unfolding recs
    by (rule rows_of_columns_nth)
       (simp_all add: column_length currency_int_length [OF r] n assms(2))
  moreover have "prize ! i = VInt (int (money_value gs))"
    using assms(2) n by (intro currency_int_cell [OF r _ assms(3-5)]) (simp add: column_length)
  ultimately show ?thesis by simp
qed

lemma records_players_money:
  assumes "records_players df = Inr recs" "i < length (rows df)"
      and "column 2 (named_frame Players df) ! i = Text (money_text gs)"
          "digit_groups gs" "money_value gs \<le> max_exact"
  shows "recs ! i ! 2 = VInt (int (money_value gs))"
proof -
  let ?df = "named_frame Players df"
  have n: "length (rows ?df) = length (rows df)"
    by (simp add: drop_label_def)
  obtain earnings percent where r: "currency_int (column 2 ?df) = Inr earnings"
    and p: "percent_float (column 5 ?df) = Inr percent"
    and recs: "recs = rows_of_columns (length (rows ?df))
                 [map (\<lambda>c. VStr (astype_str c)) (column 0 ?df),
                  map (\<lambda>c. VStr (astype_str c)) (column 1 ?df), earnings,
                  map (\<lambda>c. VStr (astype_str c)) (column 3 ?df), percent]"
    using assms(1) by (auto simp: records_players_def Let_def split: if_splits sum.splits)
  have "recs ! i = map (\<lambda>c. c ! i)
                 [map (\<lambda>c. VStr (astype_str c)) (column 0 ?df),
                  map (\<lambda>c. VStr (astype_str c)) (column 1 ?df), earnings,
                  map (\<lambda>c. VStr (astype_str c)) (column 3 ?df), percent]"
    unfolding recs
    by (rule rows_of_columns_nth)
       (simp_all add: column_length currency_int_length [OF r] percent_float_length [OF p] n
          assms(2) del: named_frame.simps)
  moreover have "earnings ! i = VInt (int (money_value gs))"
    using assms(2) n by (intro currency_int_cell [OF r _ assms(3-5)]) (simp add: column_length)
  ultimately show ?thesis by simp
qed

lemma records_countries_money:
  assumes "records_countries df = Inr recs" "i < length (rows df)"
      and "(p, q) = (2, 1) \<or> (p, q) = (5, 4)"
      and "column p df ! i = Text (money_text gs)" "digit_groups gs" "money_value gs \<le> max_exact"
  shows "recs ! i ! q = VFlt (of_nat (money_value gs))"
proof -
  obtain total players game percent where t: "currency_float (column 2 df) = Inr total"
    and d: "digits_int (column 3 df) = Inr players"
    and g: "currency_float (column 5 df) = Inr game"
    and pc: "percent_float (column 6 df) = Inr percent"
    and recs: "recs = rows_of_columns (length (rows df))
                 [map (\<lambda>c. VStr (astype_str c)) (column 1 df), total, players,
                  map (\<lambda>c. VStr (astype_str c)) (column 4 df), game, percent]"
    using assms(1) by (auto simp: records_countries_def Let_def split: if_splits sum.splits)
  have e: "recs ! i = map (\<lambda>c. c ! i)
                 [map (\<lambda>c. VStr (astype_str c)) (column 1 df), total, players,
                  map (\<lambda>c. VStr (astype_str c)) (column 4 df), game, percent]"
    unfolding recs
    by (rule rows_of_columns_nth)
       (simp_all add: column_length currency_float_length [OF t] currency_float_length [OF g]
          digits_int_length [OF d] percent_float_length [OF pc] assms(2))
  have i: "i < length (column 2 df)" "i < length (column 5 df)"
    using assms(2) by (simp_all add: column_length)
  from assms(3) show ?thesis
  proof
    assume "(p, q) = (2, 1)"
    then show ?thesis
      using currency_float_cell [OF t i(1) _ assms(5,6)] assms(4) e by simp
  next
    assume "(p, q) = (5, 4)"
    then show ?thesis
      using currency_float_cell [OF g i(2) _ assms(5,6)] assms(4) e by simp
  qed
qed

lemma records_money:
  assumes "records d df = Inr recs" "i < length (rows df)" "(p, q) \<in> set (money_positions d)"
      and "column p (named_frame d df) ! i = Text (money_text gs)"
          "digit_groups gs" "money_value gs \<le> max_exact"
  shows "recs ! i ! q = (if d = Countries then VFlt (of_nat (money_value gs))
                         else VInt (int (money_value gs)))"
proof (cases d)
  case Countries
  then show ?thesis
    using records_countries_money [of df recs i p q gs] assms by auto
next
  case Players
  then show ?thesis
    using records_players_money [of df recs i gs] assms by auto
next
  case Tournaments
  then show ?thesis
    using records_tournaments_money [of df recs i gs] assms by auto
next
  case Teams
  then show ?thesis
    using records_teams_money [of df recs i gs] assms by auto
qed

lemma records_tournaments_returns:
  assumes "4 \<le> length (columns df)"
      and "column 2 (first_columns 4 df) = map (\<lambda>gs. Text (money_text gs)) col"
      and "list_all (\<lambda>gs. digit_groups gs \<and> money_value gs \<le> max_exact) col"
  shows "\<exists>recs. records Tournaments df = Inr recs"
proof -
  have "length (columns (first_columns 4 df)) = 4"
    using assms(1) by (simp add: first_columns_def)
  then show ?thesis
    using currency_columns [OF assms(3)]
    by (simp add: records_tournaments_def Let_def assms(2))
qed

lemma records_teams_page_big:
  "records Teams teams_page_big = Inr [[VStr ''TeamA'', VInt 9007199254740992, VInt 10]]"
proof -
  have "currency_float [Text ''$9,007,199,254,740,993''] = Inr [VFlt 9007199254740992]"
    by (simp add: currency_float_def py_float_2p53_plus_1)
  then have r: "currency_int [Text ''$9,007,199,254,740,993''] = Inr [VInt 9007199254740992]"
    by (simp add: currency_int_def astype_int_2p53 del: astype_int.simps)
  have h: "list_all count_entry [Inl ''10'']"
    by (simp add: count_entry_def is_digit_def nat_of_digits_def digit_val_def max_exact_def)
  have c: "count_int [Text ''10 Tournaments''] = Inr [VInt 10]"
    using count_int_entries [OF h]
    by (simp add: count_cell_def count_expected_def nat_of_digits_def digit_val_def)
  show ?thesis
    by (simp add: records_teams_def teams_page_big_def column_def r c rows_of_columns_def)
qed

lemma records_tournaments_page_five:
  "records Tournaments tournaments_page_five = Inr [[VStr ''The Cup'', VInt 1000, VStr ''Dota 2'']]"
proof -
  have r: "currency_int [Text ''$1,000''] = Inr [VInt 1000]"
    using currency_columns [of "[[''1'', ''000'']]"]
    by (simp add: money_text_def money_value_def digit_groups_def is_digit_def nat_of_digits_def
        digit_val_def max_exact_def)
  show ?thesis
    by (simp add: records_tournaments_def tournaments_page_five_def first_columns_def column_def r
        rows_of_columns_def)
qed

subsection \<open>The currency rule\<close>

text \<open>
  Claim C4, as stated: every string \<^verbatim>\<open>"$" digits ("," digits)*\<close> is cleaned to the number
  its digits denote. It fails beyond the integers a float64 holds: the string
  \<^verbatim>\<open>$9,007,199,254,740,993\<close>, which is \<open>2^53 + 1\<close>, goes through \<^verbatim>\<open>astype(float)\<close> and comes
  out of \<^verbatim>\<open>astype(int)\<close> as \<open>2^53\<close>, in the rule and in the record of a teams page.
\<close>

theorem currency_rule_beyond_float_counterexample:
  "money_text [''9'', ''007'', ''199'', ''254'', ''740'', ''993''] = ''$9,007,199,254,740,993''
   \<and> money_value [''9'', ''007'', ''199'', ''254'', ''740'', ''993''] = 9007199254740993
   \<and> currency_int [Text ''$9,007,199,254,740,993''] = Inr [VInt 9007199254740992]
   \<and> records Teams teams_page_big = Inr [[VStr ''TeamA'', VInt 9007199254740992, VInt 10]]"
proof -
  have "currency_float [Text ''$9,007,199,254,740,993''] = Inr [VFlt 9007199254740992]"
    by (simp add: currency_float_def py_float_2p53_plus_1)
  then have "currency_int [Text ''$9,007,199,254,740,993''] = Inr [VInt 9007199254740992]"
    by (simp add: currency_int_def astype_int_2p53 del: astype_int.simps)
  then show ?thesis
    using records_teams_page_big
    by (simp add: money_text_def money_value_def nat_of_digits_def digit_val_def)
qed

text \<open>
  Claim C4, amended: take a table that a dataset normalizes without an exception, and in
  one of its money columns (total earnings and game earnings of countries, total earnings
  of players, prize pool of tournaments, revenue of teams) a currency string
  \<^verbatim>\<open>"$" digits ("," digits)*\<close> whose value does not exceed \<open>2^53\<close>. The money field of the
  record of that row then has the value that the digits denote, the sign and the
  separators removed; in players, tournaments and teams, whose rule ends in
  \<^verbatim>\<open>astype(int)\<close> (lines 161, 204 and 232), the field is that integer. The rule returns on
  every column of such strings, and tournaments normalizes every table of at least four
  columns whose prize column holds such strings.

  The theorem also says how the code of countries holds the value: lines 125 and 128
  stop at \<^verbatim>\<open>astype(float)\<close>, without the \<^verbatim>\<open>astype(int)\<close> of the other three datasets, so the
  field is a float64 of that value, although the columns \<^verbatim>\<open>total_earnings\<close> and
  \<^verbatim>\<open>game_earnings\<close> of the table are BIGINT.
\<close>

theorem currency_rule:
  "(records d df = Inr recs \<and> i < length (rows df) \<and> (p, q) \<in> set (money_positions d)
      \<and> column p (named_frame d df) ! i = Text (money_text gs)
      \<and> digit_groups gs \<and> money_value gs \<le> max_exact \<longrightarrow>
        number_of (recs ! i ! q) = Some (of_nat (money_value gs))
      \<and> (d \<noteq> Countries \<longrightarrow> recs ! i ! q = VInt (int (money_value gs)))
      \<and> (d = Countries \<longrightarrow> recs ! i ! q = VFlt (of_nat (money_value gs))))
   \<and> (list_all (\<lambda>gs. digit_groups gs \<and> money_value gs \<le> max_exact) col \<longrightarrow>
        currency_int (map (\<lambda>gs. Text (money_text gs)) col)
          = Inr (map (\<lambda>gs. VInt (int (money_value gs))) col)
      \<and> currency_float (map (\<lambda>gs. Text (money_text gs)) col)
          = Inr (map (\<lambda>gs. VFlt (of_nat (money_value gs))) col))
   \<and> (4 \<le> length (columns tf)
      \<and> column 2 (named_frame Tournaments tf) = map (\<lambda>gs. Text (money_text gs)) col
      \<and> list_all (\<lambda>gs. digit_groups gs \<and> money_value gs \<le> max_exact) col \<longrightarrow>
        (\<exists>rs. records Tournaments tf = Inr rs))"
proof -
  have a: "records d df = Inr recs \<and> i < length (rows df) \<and> (p, q) \<in> set (money_positions d)
      \<and> column p (named_frame d df) ! i = Text (money_text gs)
      \<and> digit_groups gs \<and> money_value gs \<le> max_exact \<longrightarrow>
        number_of (recs ! i ! q) = Some (of_nat (money_value gs))
      \<and> (d \<noteq> Countries \<longrightarrow> recs ! i ! q = VInt (int (money_value gs)))
      \<and> (d = Countries \<longrightarrow> recs ! i ! q = VFlt (of_nat (money_value gs)))"
    using records_money [of d df recs i p q gs] by auto
  have b: "list_all (\<lambda>gs. digit_groups gs \<and> money_value gs \<le> max_exact) col \<longrightarrow>
        currency_int (map (\<lambda>gs. Text (money_text gs)) col)
          = Inr (map (\<lambda>gs. VInt (int (money_value gs))) col)
      \<and> currency_float (map (\<lambda>gs. Text (money_text gs)) col)
          = Inr (map (\<lambda>gs. VFlt (of_nat (money_value gs))) col)"
    using currency_columns [of col] by blast
  have c: "4 \<le> length (columns tf)
      \<and> column 2 (named_frame Tournaments tf) = map (\<lambda>gs. Text (money_text gs)) col
      \<and> list_all (\<lambda>gs. digit_groups gs \<and> money_value gs \<le> max_exact) col \<longrightarrow>
        (\<exists>rs. records Tournaments tf = Inr rs)"
    using records_tournaments_returns [of tf col] by simp
  from a b c show ?thesis by blast
qed

theorem currency_rule_witness:
  "records Teams teams_page_four
   = Inr [[VStr ''TeamA'', VInt 500, VInt 10], [VStr ''TeamA'', VInt 500, VInt 10],
          [VStr ''TeamB'', VInt 300, VInt 4]]
   \<and> column 2 (named_frame Teams teams_page_four) ! 2 = Text (money_text [''300''])
   \<and> records Countries countries_page_one
     = Inr [[VStr ''United States'', VFlt 1234567, VInt 27543, VStr ''Fortnite'', VFlt 500,
             VFlt 50]]
   \<and> column 2 (named_frame Countries countries_page_one) ! 0
     = Text (money_text [''1'', ''234'', ''567''])
   \<and> money_value [''1'', ''234'', ''567''] = 1234567
   \<and> records Tournaments tournaments_page_five
     = Inr [[VStr ''The Cup'', VInt 1000, VStr ''Dota 2'']]
   \<and> column 2 (named_frame Tournaments tournaments_page_five) = [Text (money_text [''1'', ''000''])]
   \<and> currency_int [Text ''$1,234,567'', Text ''$500''] = Inr [VInt 1234567, VInt 500]"
proof -
  note t = currency_rule [where d = Teams and df = teams_page_four and i = 2 and p = 2 and q = 1
      and gs = "[''300'']" and col = "[[''1'', ''234'', ''567''], [''500'']]"
      and recs = "[[VStr ''TeamA'', VInt 500, VInt 10], [VStr ''TeamA'', VInt 500, VInt 10],
                   [VStr ''TeamB'', VInt 300, VInt 4]]"]
  have a: "column 2 (named_frame Teams teams_page_four) ! 2 = Text (money_text [''300''])"
    by (simp add: teams_page_four_def column_def money_text_def)
  have b: "column 2 (named_frame Countries countries_page_one) ! 0
           = Text (money_text [''1'', ''234'', ''567''])"
    by (simp add: countries_page_one_def column_def money_text_def)
  have c: "column 2 (named_frame Tournaments tournaments_page_five)
           = [Text (money_text [''1'', ''000''])]"
    by (simp add: tournaments_page_five_def first_columns_def column_def money_text_def)
  have d: "money_value [''1'', ''234'', ''567''] = 1234567"
    by (simp add: money_value_def nat_of_digits_def digit_val_def)
  have e: "currency_int [Text ''$1,234,567'', Text ''$500''] = Inr [VInt 1234567, VInt 500]"
    using t
    by (simp add: money_text_def money_value_def digit_groups_def is_digit_def nat_of_digits_def
        digit_val_def max_exact_def)
  from a b c d e show ?thesis
    using records_teams_page_four records_countries_page_one records_tournaments_page_five
    by simp
qed

end
